theory Spec2Isabelle
  imports Main "HOL-Library.Multiset"
begin

section \<open>JavaScript values\<close>

text \<open>
  The persisted payload (\<open>DataState\<close>) and everything read back from storage are dynamic
  JavaScript values. A number is finite, the negative zero, or one of \<open>NaN\<close>, \<open>Infinity\<close>
  and \<open>-Infinity\<close> (\<open>Number(value)\<close> in \<open>processCsvFile\<close> turns the CSV cell \<open>1e999\<close> into
  \<open>Infinity\<close> and the cell \<open>-0\<close> into the negative zero). The finite numbers are
  represented by the integers: the code does no arithmetic on the numbers of a payload, it
  only writes them as JSON text and reads them back, which gives every finite number other
  than the negative zero back unchanged, fraction or not. Objects are association lists in
  insertion order. A \<open>Date\<close> object carries its millisecond time
  value, with \<open>None\<close> for an Invalid Date.
\<close>

type_synonym Date = int

type_synonym DateObject = "int option"

datatype number = Finite int | NegZero | NaN | PosInfinity | NegInfinity

datatype jsval =
    JUndefined
  | JNull
  | JBool bool
  | JNum number
  | JStr string
  | JDate DateObject
  | JArr "jsval list"
  | JObj "(string \<times> jsval) list"

text \<open>Truthiness, as used by \<open>||\<close>, \<open>!\<close> and the conditional operator.\<close>

fun truthy :: "jsval \<Rightarrow> bool" where
  "truthy JUndefined = False"
| "truthy JNull = False"
| "truthy (JBool b) = b"
| "truthy (JNum n) = (n \<noteq> Finite 0 \<and> n \<noteq> NegZero \<and> n \<noteq> NaN)"
| "truthy (JStr s) = (s \<noteq> [])"
| "truthy (JDate d) = True"
| "truthy (JArr xs) = True"
| "truthy (JObj kvs) = True"

text \<open>
  Property read \<open>v.k\<close> for the fixed, non-numeric property names the code uses. \<open>None\<close> is
  the TypeError thrown when \<open>v\<close> is \<open>null\<close> or \<open>undefined\<close>; a missing property reads as
  \<open>undefined\<close>.
\<close>

fun get_prop :: "jsval \<Rightarrow> string \<Rightarrow> jsval option" where
  "get_prop JUndefined k = None"
| "get_prop JNull k = None"
| "get_prop (JObj kvs) k = Some (case map_of kvs k of None \<Rightarrow> JUndefined | Some v \<Rightarrow> v)"
| "get_prop (JArr xs) k = Some (if k = ''length'' then JNum (Finite (int (length xs))) else JUndefined)"
| "get_prop (JStr s) k = Some (if k = ''length'' then JNum (Finite (int (length s))) else JUndefined)"
| "get_prop v k = Some JUndefined"

text \<open>The optional chain \<open>v?.k\<close>.\<close>

definition get_prop_opt :: "jsval \<Rightarrow> string \<Rightarrow> jsval" where
  "get_prop_opt v k = (case get_prop v k of None \<Rightarrow> JUndefined | Some x \<Rightarrow> x)"

text \<open>\<open>a || b\<close> on values.\<close>

definition js_or :: "jsval \<Rightarrow> jsval \<Rightarrow> jsval" where
  "js_or a b = (if truthy a then a else b)"

text \<open>
  The four payload-derived metadata fields that both adapters and the orchestrator compute:
  \<open>fileName: dataState.fileName\<close>, \<open>rowCount: dataState.data?.length || 0\<close>,
  \<open>labelCount: dataState.labels.length\<close>, \<open>ruleCount: dataState.rules.length\<close>.
  \<open>None\<close> is a thrown TypeError.
\<close>

definition payload_counts :: "jsval \<Rightarrow> (jsval \<times> jsval \<times> jsval \<times> jsval) option" where
  "payload_counts ds =
     (case (get_prop ds ''fileName'',
            get_prop ds ''data'',
            Option.bind (get_prop ds ''labels'') (\<lambda>labels. get_prop labels ''length''),
            Option.bind (get_prop ds ''rules'') (\<lambda>rules. get_prop rules ''length'')) of
        (Some fn, Some d, Some labelCount, Some ruleCount) \<Rightarrow>
          Some (fn, js_or (get_prop_opt d ''length'') (JNum (Finite 0)), labelCount, ruleCount)
      | _ \<Rightarrow> None)"

section \<open>Containers of the standard library\<close>

text \<open>A \<open>Map\<close> keeps insertion order; setting an existing key keeps its position.\<close>

fun Map_set :: "('k \<times> 'v) list \<Rightarrow> 'k \<Rightarrow> 'v \<Rightarrow> ('k \<times> 'v) list" where
  "Map_set [] k v = [(k, v)]"
| "Map_set ((k', v') # m) k v = (if k' = k then (k, v) # m else (k', v') # Map_set m k v)"

definition Map_get :: "('k \<times> 'v) list \<Rightarrow> 'k \<Rightarrow> 'v option" where
  "Map_get m k = map_of m k"

definition Map_delete :: "('k \<times> 'v) list \<Rightarrow> 'k \<Rightarrow> ('k \<times> 'v) list" where
  "Map_delete m k = filter (\<lambda>kv. fst kv \<noteq> k) m"

definition Map_values :: "('k \<times> 'v) list \<Rightarrow> 'v list" where
  "Map_values m = map snd m"

text \<open>
  \<open>Array.prototype.sort(cmp)\<close> is a stable sort: an element is placed before the first
  later element it does not compare greater than. Where the comparator is not consistent
  (a NaN difference makes an element tie with all others) the standard leaves the order to
  the engine; the order obtained here is then that of this insertion.
\<close>

fun sort_insert :: "('a \<Rightarrow> 'a \<Rightarrow> int) \<Rightarrow> 'a \<Rightarrow> 'a list \<Rightarrow> 'a list" where
  "sort_insert cmp x [] = [x]"
| "sort_insert cmp x (y # ys) = (if cmp x y \<le> 0 then x # y # ys else y # sort_insert cmp x ys)"

definition Array_sort :: "('a \<Rightarrow> 'a \<Rightarrow> int) \<Rightarrow> 'a list \<Rightarrow> 'a list" where
  "Array_sort cmp xs = foldr (sort_insert cmp) xs []"

section \<open>The adapter contract (adapters/types.ts)\<close>

text \<open>
  \<open>lastModified\<close> and \<open>lastSyncedAt\<close> are \<open>Date\<close> objects. Both adapters build them with
  \<open>new Date(...)\<close> from what the store holds, so an entry handed to the orchestrator can
  carry an Invalid Date (\<open>None\<close>). The timestamps of a \<open>PersistedState\<close> and of a
  \<open>SyncResult\<close> are the time values of valid dates.
\<close>

record SessionMetadata =
  meta_sessionId :: string
  fileName :: jsval
  lastModified :: DateObject
  rowCount :: jsval
  labelCount :: jsval
  ruleCount :: jsval
  storageType :: string
  syncStatus :: "string option"
  lastSyncedAt :: "DateObject option"
  version :: "string option"

record PersistedState =
  sessionId :: string
  dataState :: jsval
  activeTab :: string
  metadata :: SessionMetadata
  createdAt :: Date
  updatedAt :: Date

record SyncResult =
  success :: bool
  result_sessionId :: string
  timestamp :: Date
  error :: "string option"
  result_metadata :: "jsval option"

text \<open>
  An adapter is an object with a name, a priority and its operations. Each operation acts on
  the world \<open>'w\<close> the adapter lives in (the browser store, the remote service) and returns
  its result with the world after the call.
\<close>

record 'w StateAdapter =
  name :: string
  priority :: int
  saveState :: "string \<Rightarrow> jsval \<Rightarrow> string \<Rightarrow> string \<Rightarrow> 'w \<Rightarrow> SyncResult \<times> 'w"
  loadState :: "string \<Rightarrow> 'w \<Rightarrow> PersistedState option \<times> 'w"
  deleteSession :: "string \<Rightarrow> 'w \<Rightarrow> SyncResult \<times> 'w"
  listSessions :: "'w \<Rightarrow> SessionMetadata list \<times> 'w"

record SyncConfig =
  strategy :: string
  conflictResolution :: string
  autoSync :: bool
  syncInterval :: int
  retryAttempts :: int
  retryDelay :: int

section \<open>The orchestrator (adapters/StateSync.ts)\<close>

record 'w StateSyncConfig =
  cfg_adapters :: "'w StateAdapter list"
  cfg_strategy :: "string option"
  cfg_conflictResolution :: "string option"
  cfg_autoSync :: "bool option"
  cfg_syncInterval :: "int option"
  cfg_retryAttempts :: "int option"
  cfg_retryDelay :: "int option"

record 'w StateSync =
  adapters :: "(string \<times> 'w StateAdapter) list"
  config :: SyncConfig
  syncTimer :: "int option"
  pendingSyncs :: "(string \<times> PersistedState) list"

text \<open>\<open>x || d\<close> on an optional string and on an optional number.\<close>

definition str_or :: "string option \<Rightarrow> string \<Rightarrow> string" where
  "str_or x d = (case x of None \<Rightarrow> d | Some s \<Rightarrow> if s = [] then d else s)"

definition num_or :: "int option \<Rightarrow> int \<Rightarrow> int" where
  "num_or x d = (case x of None \<Rightarrow> d | Some n \<Rightarrow> if n = 0 then d else n)"

definition stopAutoSync :: "'w StateSync \<Rightarrow> 'w StateSync" where
  "stopAutoSync this = this\<lparr>syncTimer := None\<rparr>"

definition startAutoSync :: "'w StateSync \<Rightarrow> 'w StateSync" where
  "startAutoSync this =
     (let this1 = stopAutoSync this in
      if syncInterval (config this1) \<noteq> 0
      then this1\<lparr>syncTimer := Some (syncInterval (config this1))\<rparr>
      else this1)"

definition StateSync_constructor :: "'w StateSyncConfig \<Rightarrow> 'w StateSync" where
  "StateSync_constructor cfg =
     (let this = \<lparr> adapters = foldl (\<lambda>m a. Map_set m (name a) a) [] (cfg_adapters cfg),
                   config = \<lparr> strategy = str_or (cfg_strategy cfg) ''local-first'',
                              conflictResolution = str_or (cfg_conflictResolution cfg) ''latest-wins'',
                              autoSync = (case cfg_autoSync cfg of None \<Rightarrow> True | Some b \<Rightarrow> b),
                              syncInterval = num_or (cfg_syncInterval cfg) 30000,
                              retryAttempts = num_or (cfg_retryAttempts cfg) 3,
                              retryDelay = num_or (cfg_retryDelay cfg) 5000 \<rparr>,
                   syncTimer = None,
                   pendingSyncs = [] \<rparr>
      in if autoSync (config this) \<and> syncInterval (config this) \<noteq> 0
         then startAutoSync this else this)"

definition getAdaptersByStrategy :: "'w StateSync \<Rightarrow> 'w StateAdapter list" where
  "getAdaptersByStrategy this =
     (let as = Map_values (adapters this); s = strategy (config this) in
      if s = ''backend-first'' then Array_sort (\<lambda>a b. priority b - priority a) as
      else if s = ''local-first'' then Array_sort (\<lambda>a b. priority a - priority b) as
      else if s = ''backend-only'' then filter (\<lambda>a. name a = ''backend'') as
      else if s = ''local-only'' then filter (\<lambda>a. name a = ''localStorage'') as
      else Array_sort (\<lambda>a b. priority b - priority a) as)"

text \<open>
  \<open>saveToAdapter\<close>: the retry loop. \<open>now\<close> is the reading of the clock (\<open>new Date()\<close>)
  during the call; the delay between attempts has no effect on the model.
\<close>

function saveToAdapter_loop ::
  "Date \<Rightarrow> SyncConfig \<Rightarrow> 'w StateAdapter \<Rightarrow> string \<Rightarrow> jsval \<Rightarrow> string \<Rightarrow> string
     \<Rightarrow> int \<Rightarrow> string option \<Rightarrow> 'w \<Rightarrow> SyncResult \<times> 'w" where
  "saveToAdapter_loop now cfg adapter sid ds tab ty attempts lastError w =
     (if attempts < retryAttempts cfg then
        (let rw = saveState adapter sid ds tab ty w in
         if success (fst rw) then rw
         else saveToAdapter_loop now cfg adapter sid ds tab ty (attempts + 1) (error (fst rw)) (snd rw))
      else (\<lparr> success = False, result_sessionId = sid, timestamp = now,
              error = Some (str_or lastError ''Max retry attempts reached''),
              result_metadata = None \<rparr>, w))"
  by pat_completeness auto
termination
  by (relation "measure (\<lambda>(now, cfg, adapter, sid, ds, tab, ty, attempts, lastError, w).
                   nat (retryAttempts cfg - attempts))") auto

definition saveToAdapter ::
  "Date \<Rightarrow> 'w StateSync \<Rightarrow> 'w StateAdapter \<Rightarrow> string \<Rightarrow> jsval \<Rightarrow> string \<Rightarrow> string
     \<Rightarrow> 'w \<Rightarrow> SyncResult \<times> 'w" where
  "saveToAdapter now this adapter sid ds tab ty w =
     saveToAdapter_loop now (config this) adapter sid ds tab ty 0 None w"

text \<open>
  \<open>queueBackendSync\<close>: record the pending entry, then push to the backend; the entry is
  deleted when that push reports success. The source starts the push without awaiting it;
  here it completes before the caller continues. A TypeError while building the metadata
  rejects the un-awaited promise before anything is queued.
\<close>

definition queueBackendSync ::
  "Date \<Rightarrow> 'w StateSync \<Rightarrow> string \<Rightarrow> jsval \<Rightarrow> string \<Rightarrow> string \<Rightarrow> 'w \<Rightarrow> 'w StateSync \<times> 'w" where
  "queueBackendSync now this sid ds tab ty w =
     (case Map_get (adapters this) ''backend'' of
        None \<Rightarrow> (this, w)
      | Some backend \<Rightarrow>
         (case payload_counts ds of
            None \<Rightarrow> (this, w)
          | Some (fn, rc, lc, rlc) \<Rightarrow>
             (let md = \<lparr> meta_sessionId = sid, fileName = fn, lastModified = Some now,
                         rowCount = rc, labelCount = lc, ruleCount = rlc,
                         storageType = ''hybrid'', syncStatus = Some ''pending'',
                         lastSyncedAt = None, version = Some ''1.0.0'' \<rparr>;
                  this1 = this\<lparr>pendingSyncs := Map_set (pendingSyncs this) sid
                             \<lparr> sessionId = sid, dataState = ds, activeTab = tab, metadata = md,
                               createdAt = now, updatedAt = now \<rparr>\<rparr>;
                  rw = saveState backend sid ds tab ty w
              in if success (fst rw)
                 then (this1\<lparr>pendingSyncs := Map_delete (pendingSyncs this1) sid\<rparr>, snd rw)
                 else (this1, snd rw))))"

text \<open>The loop of \<open>saveState\<close> over the adapters, collecting the \<open>results\<close> array.\<close>

fun saveState_loop ::
  "Date \<Rightarrow> 'w StateSync \<Rightarrow> 'w StateAdapter list \<Rightarrow> string \<Rightarrow> jsval \<Rightarrow> string \<Rightarrow> string
     \<Rightarrow> SyncResult list \<Rightarrow> 'w \<Rightarrow> SyncResult list \<times> 'w StateSync \<times> 'w" where
  "saveState_loop now this [] sid ds tab ty results w = (results, this, w)"
| "saveState_loop now this (adapter # rest) sid ds tab ty results w =
     (let rw = saveToAdapter now this adapter sid ds tab ty w;
          results1 = results @ [fst rw]
      in if strategy (config this) = ''backend-first'' \<and> name adapter = ''backend''
            \<and> success (fst rw)
         then (results1, this, snd rw)
         else if strategy (config this) = ''local-first'' \<and> name adapter = ''localStorage''
            \<and> success (fst rw)
         then (let q = queueBackendSync now this sid ds tab ty (snd rw)
               in saveState_loop now (fst q) rest sid ds tab ty results1 (snd q))
         else saveState_loop now this rest sid ds tab ty results1 (snd rw))"

text \<open>
  \<open>saveState\<close> returns \<open>results.find(r => r.success) || results[0]\<close>; with no adapter
  selected that is \<open>undefined\<close>, here \<open>None\<close>.
\<close>

definition primaryResult :: "SyncResult list \<Rightarrow> SyncResult option" where
  "primaryResult results =
     (case find success results of
        Some r \<Rightarrow> Some r
      | None \<Rightarrow> (case results of [] \<Rightarrow> None | r # rs \<Rightarrow> Some r))"

definition StateSync_saveState ::
  "Date \<Rightarrow> string \<Rightarrow> jsval \<Rightarrow> string \<Rightarrow> string \<Rightarrow> 'w StateSync \<times> 'w
     \<Rightarrow> SyncResult option \<times> 'w StateSync \<times> 'w" where
  "StateSync_saveState now sid ds tab ty s =
     (let out = saveState_loop now (fst s) (getAdaptersByStrategy (fst s)) sid ds tab ty [] (snd s)
      in (primaryResult (fst out), snd out))"

text \<open>\<open>loadState\<close>: query every selected adapter, keep the states found.\<close>

fun loadState_loop ::
  "'w StateAdapter list \<Rightarrow> string \<Rightarrow> (string \<times> PersistedState) list \<Rightarrow> 'w
     \<Rightarrow> (string \<times> PersistedState) list \<times> 'w" where
  "loadState_loop [] sid states w = (states, w)"
| "loadState_loop (adapter # rest) sid states w =
     (let sw = loadState adapter sid w in
      case fst sw of
        None \<Rightarrow> loadState_loop rest sid states (snd sw)
      | Some state \<Rightarrow> loadState_loop rest sid (states @ [(name adapter, state)]) (snd sw))"

text \<open>\<open>Array.prototype.reduce\<close> without an initial value; it throws on an empty array.\<close>

definition Array_reduce :: "('a \<Rightarrow> 'a \<Rightarrow> 'a) \<Rightarrow> 'a list \<Rightarrow> 'a option" where
  "Array_reduce f xs = (case xs of [] \<Rightarrow> None | x # rest \<Rightarrow> Some (foldl f x rest))"

definition first_state :: "(string \<times> PersistedState) list \<Rightarrow> PersistedState option" where
  "first_state states = (case states of [] \<Rightarrow> None | s # rest \<Rightarrow> Some (snd s))"

definition resolveConflict ::
  "'w StateSync \<Rightarrow> (string \<times> PersistedState) list \<Rightarrow> PersistedState option" where
  "resolveConflict this states =
     (let cr = conflictResolution (config this) in
      if cr = ''backend-wins'' then
        (case find (\<lambda>s. fst s = ''backend'') states of
           Some s \<Rightarrow> Some (snd s) | None \<Rightarrow> first_state states)
      else if cr = ''local-wins'' then
        (case find (\<lambda>s. fst s = ''localStorage'') states of
           Some s \<Rightarrow> Some (snd s) | None \<Rightarrow> first_state states)
      else if cr = ''merge'' then first_state states
      else map_option snd
             (Array_reduce (\<lambda>prev curr. if updatedAt (snd curr) > updatedAt (snd prev)
                                          then curr else prev) states))"

definition loadState_from ::
  "'w StateSync \<Rightarrow> 'w StateAdapter list \<Rightarrow> string \<Rightarrow> 'w \<Rightarrow> PersistedState option \<times> 'w" where
  "loadState_from this as sid w =
     (let out = loadState_loop as sid [] w; states = fst out in
      if length states = 0 then (None, snd out)
      else if length states = 1 then (first_state states, snd out)
      else (resolveConflict this states, snd out))"

definition StateSync_loadState ::
  "string \<Rightarrow> 'w StateSync \<times> 'w \<Rightarrow> PersistedState option \<times> 'w StateSync \<times> 'w" where
  "StateSync_loadState sid s =
     (let out = loadState_from (fst s) (getAdaptersByStrategy (fst s)) sid (snd s)
      in (fst out, fst s, snd out))"

text \<open>\<open>deleteSession\<close>: every registered adapter, in registration order.\<close>

fun deleteSession_loop ::
  "'w StateAdapter list \<Rightarrow> string \<Rightarrow> SyncResult list \<Rightarrow> 'w \<Rightarrow> SyncResult list \<times> 'w" where
  "deleteSession_loop [] sid results w = (results, w)"
| "deleteSession_loop (adapter # rest) sid results w =
     (let rw = deleteSession adapter sid w
      in deleteSession_loop rest sid (results @ [fst rw]) (snd rw))"

definition StateSync_deleteSession ::
  "Date \<Rightarrow> string \<Rightarrow> 'w StateSync \<times> 'w \<Rightarrow> SyncResult \<times> 'w StateSync \<times> 'w" where
  "StateSync_deleteSession now sid s =
     (let out = deleteSession_loop (Map_values (adapters (fst s))) sid [] (snd s);
          ok = list_ex success (fst out)
      in (\<lparr> success = ok, result_sessionId = sid, timestamp = now,
             error = (if ok then None else Some ''Failed to delete from all adapters''),
             result_metadata = None \<rparr>, fst s, snd out))"

text \<open>
  Two \<open>Date\<close> objects compared with \<open>>\<close>, and the difference of their \<open>getTime()\<close> as a
  sort comparator returns it. A comparison with an Invalid Date is false; the difference is
  then NaN, which the sort takes as 0.
\<close>

definition Date_gt :: "DateObject \<Rightarrow> DateObject \<Rightarrow> bool" where
  "Date_gt a b = (case (a, b) of (Some x, Some y) \<Rightarrow> x > y | _ \<Rightarrow> False)"

definition Date_diff :: "DateObject \<Rightarrow> DateObject \<Rightarrow> int" where
  "Date_diff a b = (case (a, b) of (Some x, Some y) \<Rightarrow> x - y | _ \<Rightarrow> 0)"

text \<open>\<open>listSessions\<close>: merge by session id, keeping the later \<open>lastModified\<close>, then sort.\<close>

fun merge_sessions ::
  "(string \<times> SessionMetadata) list \<Rightarrow> SessionMetadata list \<Rightarrow> (string \<times> SessionMetadata) list" where
  "merge_sessions allSessions [] = allSessions"
| "merge_sessions allSessions (session # rest) =
     (case Map_get allSessions (meta_sessionId session) of
        None \<Rightarrow> merge_sessions (Map_set allSessions (meta_sessionId session) session) rest
      | Some existing \<Rightarrow>
          if Date_gt (lastModified session) (lastModified existing)
          then merge_sessions (Map_set allSessions (meta_sessionId session) session) rest
          else merge_sessions allSessions rest)"

fun listSessions_loop ::
  "'w StateAdapter list \<Rightarrow> (string \<times> SessionMetadata) list \<Rightarrow> 'w
     \<Rightarrow> (string \<times> SessionMetadata) list \<times> 'w" where
  "listSessions_loop [] allSessions w = (allSessions, w)"
| "listSessions_loop (adapter # rest) allSessions w =
     (let sw = listSessions adapter w
      in listSessions_loop rest (merge_sessions allSessions (fst sw)) (snd sw))"

definition StateSync_listSessions ::
  "'w StateSync \<times> 'w \<Rightarrow> SessionMetadata list \<times> 'w StateSync \<times> 'w" where
  "StateSync_listSessions s =
     (let out = listSessions_loop (Map_values (adapters (fst s))) [] (snd s)
      in (Array_sort (\<lambda>a b. Date_diff (lastModified b) (lastModified a)) (Map_values (fst out)),
          fst s, snd out))"

text \<open>
  \<open>syncPendingChanges\<close>, the body of the timer tick: one push per entry of a snapshot of
  the queue; an entry is deleted only when its push reports success.
\<close>

fun syncPending_loop ::
  "'w StateAdapter \<Rightarrow> (string \<times> PersistedState) list \<Rightarrow> 'w StateSync \<Rightarrow> 'w \<Rightarrow> 'w StateSync \<times> 'w" where
  "syncPending_loop backend [] this w = (this, w)"
| "syncPending_loop backend (entry # rest) this w =
     (let rw = saveState backend (fst entry) (dataState (snd entry)) (activeTab (snd entry))
                 ''data'' w
      in if success (fst rw)
         then syncPending_loop backend rest
                (this\<lparr>pendingSyncs := Map_delete (pendingSyncs this) (fst entry)\<rparr>) (snd rw)
         else syncPending_loop backend rest this (snd rw))"

definition syncPendingChanges :: "'w StateSync \<times> 'w \<Rightarrow> 'w StateSync \<times> 'w" where
  "syncPendingChanges s =
     (case Map_get (adapters (fst s)) ''backend'' of
        None \<Rightarrow> s
      | Some backend \<Rightarrow> syncPending_loop backend (pendingSyncs (fst s)) (fst s) (snd s))"

text \<open>The calls a client and the timer can make on the orchestrator, and a run of them.\<close>

datatype call =
    Save string jsval string string
  | Load string
  | Delete string
  | ListAll
  | Tick

fun perform :: "Date \<Rightarrow> call \<Rightarrow> 'w StateSync \<times> 'w \<Rightarrow> 'w StateSync \<times> 'w" where
  "perform now (Save sid ds tab ty) s = snd (StateSync_saveState now sid ds tab ty s)"
| "perform now (Load sid) s = snd (StateSync_loadState sid s)"
| "perform now (Delete sid) s = snd (StateSync_deleteSession now sid s)"
| "perform now ListAll s = snd (StateSync_listSessions s)"
| "perform now Tick s = syncPendingChanges s"

fun run :: "(Date \<times> call) list \<Rightarrow> 'w StateSync \<times> 'w \<Rightarrow> 'w StateSync \<times> 'w" where
  "run [] s = s"
| "run (c # cs) s = run cs (perform (fst c) (snd c) s)"
section \<open>Dates and JSON text\<close>

text \<open>
  \<open>Date.prototype.toISOString\<close> and the parsing of a date text by \<open>new Date(text)\<close>. The
  only property of the ISO-8601 layout the code relies on is that parsing the text of a valid
  date gives that date back; the text is modelled as the letter T followed by the decimal
  millisecond count. Any other string parses to an Invalid Date.
\<close>

definition digit_char :: "nat \<Rightarrow> char" where
  "digit_char d = ''0123456789'' ! d"

definition is_digit :: "char \<Rightarrow> bool" where
  "is_digit c = (c \<in> set ''0123456789'')"

definition digit_val :: "char \<Rightarrow> nat" where
  "digit_val c = length (takeWhile (\<lambda>d. d \<noteq> c) ''0123456789'')"

function show_nat :: "nat \<Rightarrow> string" where
  "show_nat n = (if n < 10 then [digit_char n] else show_nat (n div 10) @ [digit_char (n mod 10)])"
  by pat_completeness auto
termination
  by (relation "measure id") auto

declare show_nat.simps [simp del]

definition read_nat :: "string \<Rightarrow> nat" where
  "read_nat s = foldl (\<lambda>acc c. 10 * acc + digit_val c) 0 s"

definition show_int :: "int \<Rightarrow> string" where
  "show_int i = (if i < 0 then CHR ''-'' # show_nat (nat (- i)) else show_nat (nat i))"

definition toISOString :: "int \<Rightarrow> string" where
  "toISOString t = CHR ''T'' # show_int t"

definition Date_parse :: "string \<Rightarrow> int option" where
  "Date_parse s =
     (case s of
        [] \<Rightarrow> None
      | c # body \<Rightarrow>
          if c \<noteq> CHR ''T'' then None
          else (case body of
                  [] \<Rightarrow> None
                | d # ds \<Rightarrow>
                    if d = CHR ''-'' then
                      (if ds \<noteq> [] \<and> list_all is_digit ds then Some (- int (read_nat ds)) else None)
                    else if list_all is_digit body then Some (int (read_nat body)) else None))"

text \<open>
  \<open>new Date(v)\<close> for the values that can stand at a timestamp position. A number is a
  time value when it is finite and at most 8.64e15 in magnitude. Arrays and objects go
  through their string conversion in the source and are taken as invalid here.
\<close>

fun new_Date :: "jsval \<Rightarrow> jsval" where
  "new_Date (JStr s) = JDate (Date_parse s)"
| "new_Date (JNum (Finite n)) = JDate (if abs n \<le> 8640000000000000 then Some n else None)"
| "new_Date (JNum NegZero) = JDate (Some 0)"
| "new_Date JNull = JDate (Some 0)"
| "new_Date (JBool b) = JDate (Some (if b then 1 else 0))"
| "new_Date (JDate d) = JDate d"
| "new_Date v = JDate None"

text \<open>\<open>d.getTime()\<close>: \<open>None\<close> is NaN.\<close>

fun getTime :: "jsval \<Rightarrow> int option" where
  "getTime (JDate d) = d"
| "getTime v = None"

text \<open>
  \<open>JSON.parse(JSON.stringify(v))\<close> for a value \<open>v\<close> inside an object or array: a property
  whose value is \<open>undefined\<close> is dropped, an \<open>undefined\<close> array element becomes \<open>null\<close>, a
  valid date becomes its text and an invalid one \<open>null\<close>, a number that is not finite
  becomes \<open>null\<close>, and the negative zero becomes zero.
\<close>

fun jsonify :: "jsval \<Rightarrow> jsval" where
  "jsonify JUndefined = JNull"
| "jsonify (JDate None) = JNull"
| "jsonify (JDate (Some t)) = JStr (toISOString t)"
| "jsonify (JArr xs) = JArr (map jsonify xs)"
| "jsonify (JObj kvs) =
     JObj (map (\<lambda>kv. (fst kv, jsonify (snd kv))) (filter (\<lambda>kv. snd kv \<noteq> JUndefined) kvs))"
| "jsonify (JNum (Finite n)) = JNum (Finite n)"
| "jsonify (JNum NegZero) = JNum (Finite 0)"
| "jsonify (JNum n) = JNull"
| "jsonify v = v"

fun join_with :: "string \<Rightarrow> string list \<Rightarrow> string" where
  "join_with sep [] = []"
| "join_with sep [x] = x"
| "join_with sep (x # y # ys) = x @ sep @ join_with sep (y # ys)"

fun to_string :: "jsval \<Rightarrow> string" where
  "to_string JUndefined = ''undefined''"
| "to_string JNull = ''null''"
| "to_string (JBool b) = (if b then ''true'' else ''false'')"
| "to_string (JNum (Finite n)) = show_int n"
| "to_string (JNum NegZero) = ''0''"
| "to_string (JNum NaN) = ''NaN''"
| "to_string (JNum PosInfinity) = ''Infinity''"
| "to_string (JNum NegInfinity) = ''-Infinity''"
| "to_string (JStr s) = s"
| "to_string (JDate d) = (case d of None \<Rightarrow> ''Invalid Date'' | Some t \<Rightarrow> toISOString t)"
| "to_string (JArr xs) =
     join_with '','' (map (\<lambda>x. if x = JNull \<or> x = JUndefined then [] else to_string x) xs)"
| "to_string (JObj kvs) = ''[object Object]''"


text \<open>
  A string held by the browser store. \<open>Json v\<close> is the text \<open>JSON.stringify(v)\<close>, which
  \<open>JSON.parse\<close> reads back as \<open>jsonify v\<close>; \<open>Plain s\<close> is the string \<open>s\<close> where it is
  used as it is (the active-session value) or where \<open>JSON.parse\<close> rejects it.
\<close>

datatype stored = Plain string | Json jsval

datatype exn = TypeError | SyntaxError | QuotaExceededError

text \<open>The \<open>message\<close> of a caught error; the engine's wording is replaced by the error's name.\<close>

fun message :: "exn \<Rightarrow> string" where
  "message TypeError = ''TypeError''"
| "message SyntaxError = ''SyntaxError''"
| "message QuotaExceededError = ''QuotaExceededError''"

definition JSON_stringify :: "jsval \<Rightarrow> stored" where
  "JSON_stringify v = Json v"

fun JSON_parse :: "stored \<Rightarrow> exn + jsval" where
  "JSON_parse (Json v) = Inr (jsonify v)"
| "JSON_parse (Plain s) = Inl SyntaxError"

text \<open>The own enumerable properties copied by an object spread \<open>{...v}\<close>.\<close>

fun own_props :: "jsval \<Rightarrow> (string \<times> jsval) list" where
  "own_props (JObj kvs) = kvs"
| "own_props (JArr xs) = zip (map show_nat [0..<length xs]) xs"
| "own_props (JStr s) = zip (map show_nat [0..<length s]) (map (\<lambda>c. JStr [c]) s)"
| "own_props v = []"

text \<open>The object literal \<open>{...v, k1: v1, ..., kn: vn}\<close>.\<close>

definition spread_with :: "jsval \<Rightarrow> (string \<times> jsval) list \<Rightarrow> jsval" where
  "spread_with v kvs = JObj (foldl (\<lambda>m kv. Map_set m (fst kv) (snd kv)) (own_props v) kvs)"

text \<open>\<open>xs.map(f)\<close> where \<open>f\<close> may throw; anything but an array has no \<open>map\<close> method.\<close>

fun map_throwing :: "('a \<Rightarrow> 'b option) \<Rightarrow> 'a list \<Rightarrow> 'b list option" where
  "map_throwing f [] = Some []"
| "map_throwing f (x # xs) =
     (case f x of None \<Rightarrow> None
      | Some y \<Rightarrow> (case map_throwing f xs of None \<Rightarrow> None | Some ys \<Rightarrow> Some (y # ys)))"

fun Array_map :: "(jsval \<Rightarrow> jsval option) \<Rightarrow> jsval \<Rightarrow> jsval option" where
  "Array_map f (JArr xs) = map_option JArr (map_throwing f xs)"
| "Array_map f v = None"

text \<open>\<open>s.includes(p)\<close> on strings.\<close>

fun starts_with :: "string \<Rightarrow> string \<Rightarrow> bool" where
  "starts_with [] s = True"
| "starts_with (p # ps) [] = False"
| "starts_with (p # ps) (c # cs) = (p = c \<and> starts_with ps cs)"

fun String_includes :: "string \<Rightarrow> string \<Rightarrow> bool" where
  "String_includes [] p = (p = [])"
| "String_includes (c # cs) p = (starts_with p (c # cs) \<or> String_includes cs p)"

section \<open>What both adapters share\<close>

text \<open>The metadata literal built on every save.\<close>

definition fresh_metadata ::
  "Date \<Rightarrow> string \<Rightarrow> jsval \<times> jsval \<times> jsval \<times> jsval \<Rightarrow> string \<Rightarrow> jsval" where
  "fresh_metadata now sid counts storage =
     (case counts of (fn, rc, lc, rlc) \<Rightarrow>
        JObj [(''sessionId'', JStr sid), (''fileName'', fn), (''lastModified'', JDate (Some now)),
              (''rowCount'', rc), (''labelCount'', lc), (''ruleCount'', rlc),
              (''storageType'', JStr storage), (''syncStatus'', JStr ''synced''),
              (''lastSyncedAt'', JDate (Some now)), (''version'', JStr ''1.0.0'')])"

definition failure :: "Date \<Rightarrow> string \<Rightarrow> string \<Rightarrow> SyncResult" where
  "failure now sid msg = \<lparr> success = False, result_sessionId = sid, timestamp = now,
                           error = Some msg, result_metadata = None \<rparr>"

text \<open>
  The block under \<open>// Deserialize dates\<close> of \<open>loadState\<close>, the same in both adapters: the
  record's own timestamps, those of its metadata, and \<open>createdAt\<close>, \<open>updatedAt\<close> and
  \<open>timestamp\<close> of the labels, rules and actions are turned back into dates. \<open>None\<close> is a
  TypeError, which \<open>loadState\<close> catches.
\<close>

definition revive_label :: "jsval \<Rightarrow> jsval option" where
  "revive_label label =
     (case get_prop label ''createdAt'' of
        None \<Rightarrow> None
      | Some c \<Rightarrow> Some (spread_with label [(''createdAt'', new_Date c)]))"

definition revive_rule :: "jsval \<Rightarrow> jsval option" where
  "revive_rule rule =
     (case (get_prop rule ''createdAt'', get_prop rule ''updatedAt'') of
        (Some c, Some u) \<Rightarrow>
          Some (spread_with rule [(''createdAt'', new_Date c), (''updatedAt'', new_Date u)])
      | _ \<Rightarrow> None)"

definition revive_action :: "jsval \<Rightarrow> jsval option" where
  "revive_action action =
     (case get_prop action ''timestamp'' of
        None \<Rightarrow> None
      | Some t \<Rightarrow> Some (spread_with action [(''timestamp'', new_Date t)]))"

definition revive_metadata :: "jsval \<Rightarrow> jsval option" where
  "revive_metadata m =
     (case (get_prop m ''lastModified'', get_prop m ''lastSyncedAt'') of
        (Some lm, Some lsa) \<Rightarrow>
          Some (spread_with m [(''lastModified'', new_Date lm),
                               (''lastSyncedAt'', if truthy lsa then new_Date lsa else JUndefined)])
      | _ \<Rightarrow> None)"

definition revive_dataState :: "jsval \<Rightarrow> jsval option" where
  "revive_dataState ds =
     (case (Option.bind (get_prop ds ''labels'') (Array_map revive_label),
            Option.bind (get_prop ds ''rules'') (Array_map revive_rule),
            Option.bind (get_prop ds ''actionHistory'') (Array_map revive_action)) of
        (Some labels, Some rules, Some actions) \<Rightarrow>
          Some (spread_with ds [(''labels'', labels), (''rules'', rules),
                                (''actionHistory'', actions)])
      | _ \<Rightarrow> None)"

definition deserialize_dates :: "jsval \<Rightarrow> jsval option" where
  "deserialize_dates parsed =
     (case (get_prop parsed ''createdAt'', get_prop parsed ''updatedAt'',
            Option.bind (get_prop parsed ''metadata'') revive_metadata,
            Option.bind (get_prop parsed ''dataState'') revive_dataState) of
        (Some c, Some u, Some m, Some d) \<Rightarrow>
          Some (spread_with parsed [(''createdAt'', new_Date c), (''updatedAt'', new_Date u),
                                    (''metadata'', m), (''dataState'', d)])
      | _ \<Rightarrow> None)"

section \<open>The on-device adapter (adapters/LocalStorageAdapter.ts)\<close>

text \<open>
  The browser's \<open>localStorage\<close>: the stored items, and which writes the browser accepts
  (\<open>setItem\<close> throws when the quota is exceeded). Reading and removing never throw.
\<close>

record localStorage =
  items :: "string \<Rightarrow> stored option"
  accepts :: "(string \<Rightarrow> stored option) \<Rightarrow> string \<Rightarrow> stored \<Rightarrow> bool"

definition getItem :: "string \<Rightarrow> localStorage \<Rightarrow> stored option" where
  "getItem k ls = items ls k"

definition setItem :: "string \<Rightarrow> stored \<Rightarrow> localStorage \<Rightarrow> exn + localStorage" where
  "setItem k v ls =
     (if accepts ls (items ls) k v then Inr (ls\<lparr>items := (items ls)(k \<mapsto> v)\<rparr>)
      else Inl QuotaExceededError)"

definition removeItem :: "string \<Rightarrow> localStorage \<Rightarrow> localStorage" where
  "removeItem k ls = ls\<lparr>items := (items ls)(k := None)\<rparr>"

text \<open>A stored string is falsy when it is empty.\<close>

fun nonempty :: "stored \<Rightarrow> bool" where
  "nonempty (Plain s) = (s \<noteq> [])"
| "nonempty (Json j) = True"

definition STORAGE_PREFIX :: string where
  "STORAGE_PREFIX = ''data-labeler''"

definition ACTIVE_SESSION_KEY :: string where
  "ACTIVE_SESSION_KEY = STORAGE_PREFIX @ '':active-session''"

definition SESSION_LIST_KEY :: string where
  "SESSION_LIST_KEY = STORAGE_PREFIX @ '':sessions''"

definition getSessionKey :: "string \<Rightarrow> string" where
  "getSessionKey sid = STORAGE_PREFIX @ '':session:'' @ sid"

definition getSessionList :: "localStorage \<Rightarrow> exn + jsval" where
  "getSessionList ls =
     (case getItem SESSION_LIST_KEY ls of
        None \<Rightarrow> Inr (JArr [])
      | Some data \<Rightarrow> if nonempty data then JSON_parse data else Inr (JArr []))"

text \<open>
  \<open>sessionList.includes(sessionId)\<close> and \<open>sessionList.push(sessionId)\<close> on whatever the
  stored index parsed to: an array has both, a string has \<open>includes\<close> only, anything else
  has neither.
\<close>

fun list_includes :: "jsval \<Rightarrow> string \<Rightarrow> exn + bool" where
  "list_includes (JArr xs) sid = Inr (JStr sid \<in> set xs)"
| "list_includes (JStr s) sid = Inr (String_includes s sid)"
| "list_includes v sid = Inl TypeError"

fun list_push :: "jsval \<Rightarrow> string \<Rightarrow> exn + jsval" where
  "list_push (JArr xs) sid = Inr (JArr (xs @ [JStr sid]))"
| "list_push v sid = Inl TypeError"

definition updateSessionList :: "string \<Rightarrow> localStorage \<Rightarrow> exn + localStorage" where
  "updateSessionList sid ls =
     (case getSessionList ls of
        Inl e \<Rightarrow> Inl e
      | Inr sessionList \<Rightarrow>
         (case list_includes sessionList sid of
            Inl e \<Rightarrow> Inl e
          | Inr True \<Rightarrow> Inr ls
          | Inr False \<Rightarrow>
             (case list_push sessionList sid of
                Inl e \<Rightarrow> Inl e
              | Inr sessionList1 \<Rightarrow> setItem SESSION_LIST_KEY (JSON_stringify sessionList1) ls)))"

definition LocalStorageAdapter_getActiveSessionId :: "localStorage \<Rightarrow> stored option" where
  "LocalStorageAdapter_getActiveSessionId ls = getItem ACTIVE_SESSION_KEY ls"

definition LocalStorageAdapter_setActiveSessionId :: "string \<Rightarrow> localStorage \<Rightarrow> exn + localStorage" where
  "LocalStorageAdapter_setActiveSessionId sid ls = setItem ACTIVE_SESSION_KEY (Plain sid) ls"

definition LocalStorageAdapter_clearActiveSessionId :: "localStorage \<Rightarrow> localStorage" where
  "LocalStorageAdapter_clearActiveSessionId ls = removeItem ACTIVE_SESSION_KEY ls"

definition LocalStorageAdapter_hasSession :: "string \<Rightarrow> localStorage \<Rightarrow> bool" where
  "LocalStorageAdapter_hasSession sid ls = (getItem (getSessionKey sid) ls \<noteq> None)"

text \<open>\<open>loadState\<close> reads only; its result is \<open>null\<close> (\<open>None\<close>) or the revived record.\<close>

definition LocalStorageAdapter_loadState :: "string \<Rightarrow> localStorage \<Rightarrow> jsval option" where
  "LocalStorageAdapter_loadState sid ls =
     (case getItem (getSessionKey sid) ls of
        None \<Rightarrow> None
      | Some data \<Rightarrow>
          if \<not> nonempty data then None
          else (case JSON_parse data of
                  Inl e \<Rightarrow> None
                | Inr parsed \<Rightarrow> deserialize_dates parsed))"

text \<open>
  \<open>saveState\<close>: three writes in a \<open>try\<close> block. A throw leaves the writes already made in
  place and turns into a failure result.
\<close>

definition LocalStorageAdapter_saveState ::
  "Date \<Rightarrow> string \<Rightarrow> jsval \<Rightarrow> string \<Rightarrow> string \<Rightarrow> localStorage \<Rightarrow> SyncResult \<times> localStorage" where
  "LocalStorageAdapter_saveState now sid ds tab ty ls =
     (let existingState = LocalStorageAdapter_loadState sid ls in
      case payload_counts ds of
        None \<Rightarrow> (failure now sid (message TypeError), ls)
      | Some counts \<Rightarrow>
         (let md = fresh_metadata now sid counts ''local'';
              persistedState = JObj
                [(''sessionId'', JStr sid), (''dataState'', ds), (''activeTab'', JStr tab),
                 (''metadata'', md),
                 (''createdAt'', (case existingState of
                                    None \<Rightarrow> JDate (Some now)
                                  | Some st \<Rightarrow> js_or (get_prop_opt st ''createdAt'') (JDate (Some now)))),
                 (''updatedAt'', JDate (Some now))]
          in case setItem (getSessionKey sid) (JSON_stringify persistedState) ls of
               Inl e \<Rightarrow> (failure now sid (message e), ls)
             | Inr ls1 \<Rightarrow>
                (case updateSessionList sid ls1 of
                   Inl e \<Rightarrow> (failure now sid (message e), ls1)
                 | Inr ls2 \<Rightarrow>
                    (case LocalStorageAdapter_setActiveSessionId sid ls2 of
                       Inl e \<Rightarrow> (failure now sid (message e), ls2)
                     | Inr ls3 \<Rightarrow>
                        (\<lparr> success = True, result_sessionId = sid, timestamp = now,
                           error = None, result_metadata = Some md \<rparr>, ls3)))))"

text \<open>\<open>sessionList.filter(id => id !== sessionId)\<close>; only an array has \<open>filter\<close>.\<close>

fun without :: "jsval \<Rightarrow> string \<Rightarrow> exn + jsval" where
  "without (JArr xs) sid = Inr (JArr (filter (\<lambda>id. id \<noteq> JStr sid) xs))"
| "without v sid = Inl TypeError"

definition LocalStorageAdapter_deleteSession ::
  "Date \<Rightarrow> string \<Rightarrow> localStorage \<Rightarrow> SyncResult \<times> localStorage" where
  "LocalStorageAdapter_deleteSession now sid ls =
     (let ls1 = removeItem (getSessionKey sid) ls in
      case getSessionList ls1 of
        Inl e \<Rightarrow> (failure now sid (message e), ls1)
      | Inr sessionList \<Rightarrow>
         (case without sessionList sid of
            Inl e \<Rightarrow> (failure now sid (message e), ls1)
          | Inr updatedList \<Rightarrow>
             (case setItem SESSION_LIST_KEY (JSON_stringify updatedList) ls1 of
                Inl e \<Rightarrow> (failure now sid (message e), ls1)
              | Inr ls2 \<Rightarrow>
                 (\<lparr> success = True, result_sessionId = sid, timestamp = now,
                    error = None, result_metadata = None \<rparr>,
                  if LocalStorageAdapter_getActiveSessionId ls2 = Some (Plain sid)
                  then removeItem ACTIVE_SESSION_KEY ls2 else ls2))))"

text \<open>
  \<open>listSessions\<close>: \<open>for (const sessionId of sessionIds)\<close> iterates an array or the
  characters of a string and throws on anything else; an element is turned into a string by
  the template literal of \<open>getSessionKey\<close>. The metadata of a loaded record always carries
  a date at \<open>lastModified\<close>, so the comparator cannot throw; a NaN difference counts as 0.
\<close>

fun iterate :: "jsval \<Rightarrow> exn + jsval list" where
  "iterate (JArr xs) = Inr xs"
| "iterate (JStr s) = Inr (map (\<lambda>c. JStr [c]) s)"
| "iterate v = Inl TypeError"

fun collect_sessions :: "jsval list \<Rightarrow> localStorage \<Rightarrow> jsval list \<Rightarrow> jsval list" where
  "collect_sessions [] ls sessions = sessions"
| "collect_sessions (x # rest) ls sessions =
     (case LocalStorageAdapter_loadState (to_string x) ls of
        None \<Rightarrow> collect_sessions rest ls sessions
      | Some state \<Rightarrow> collect_sessions rest ls (sessions @ [get_prop_opt state ''metadata'']))"

definition by_lastModified_desc :: "jsval \<Rightarrow> jsval \<Rightarrow> int" where
  "by_lastModified_desc a b =
     (case (getTime (get_prop_opt b ''lastModified''), getTime (get_prop_opt a ''lastModified'')) of
        (Some tb, Some ta) \<Rightarrow> tb - ta
      | _ \<Rightarrow> 0)"

definition LocalStorageAdapter_listSessions :: "localStorage \<Rightarrow> jsval list" where
  "LocalStorageAdapter_listSessions ls =
     (case getSessionList ls of
        Inl e \<Rightarrow> []
      | Inr sessionIds \<Rightarrow>
         (case iterate sessionIds of
            Inl e \<Rightarrow> []
          | Inr ids \<Rightarrow> Array_sort by_lastModified_desc (collect_sessions ids ls [])))"

section \<open>The remote adapter (adapters/BackendAdapter.ts)\<close>

text \<open>
  The adapter talks to the remote service through an injected \<open>ApiClient\<close>. A client call
  acts on the state \<open>'n\<close> of the network and the service behind it and resolves to a
  response, or rejects (\<open>None\<close>).
\<close>

record ApiResponse =
  resp_data :: jsval
  resp_error :: "string option"
  status :: int

record 'n ApiClient =
  client_get :: "string \<Rightarrow> 'n \<Rightarrow> ApiResponse option \<times> 'n"
  client_post :: "string \<Rightarrow> jsval \<Rightarrow> 'n \<Rightarrow> ApiResponse option \<times> 'n"
  client_delete :: "string \<Rightarrow> 'n \<Rightarrow> ApiResponse option \<times> 'n"

record 'n BackendAdapter =
  isOnline :: bool
  net :: 'n

text \<open>\<open>if (response.error)\<close>: an absent or empty error string is falsy.\<close>

definition has_error :: "ApiResponse \<Rightarrow> bool" where
  "has_error response = (case resp_error response of None \<Rightarrow> False | Some e \<Rightarrow> e \<noteq> [])"

definition BackendAdapter_saveState ::
  "'n ApiClient \<Rightarrow> Date \<Rightarrow> string \<Rightarrow> jsval \<Rightarrow> string \<Rightarrow> string \<Rightarrow> 'n BackendAdapter
     \<Rightarrow> SyncResult \<times> 'n BackendAdapter" where
  "BackendAdapter_saveState client now sid ds tab ty this =
     (case payload_counts ds of
        None \<Rightarrow> (failure now sid (message TypeError), this\<lparr>isOnline := False\<rparr>)
      | Some counts \<Rightarrow>
         (let md = fresh_metadata now sid counts ''backend'';
              payload = JObj [(''sessionId'', JStr sid), (''dataState'', ds),
                              (''activeTab'', JStr tab), (''metadata'', md), (''type'', JStr ty)];
              rn = client_post client (''/sessions/'' @ sid) payload (net this)
          in case fst rn of
               None \<Rightarrow> (failure now sid ''Unknown error'', \<lparr>isOnline = False, net = snd rn\<rparr>)
             | Some response \<Rightarrow>
                 if has_error response
                 then (failure now sid (the (resp_error response)),
                       \<lparr>isOnline = False, net = snd rn\<rparr>)
                 else (\<lparr> success = True, result_sessionId = sid, timestamp = now,
                         error = None, result_metadata = Some md \<rparr>,
                       \<lparr>isOnline = True, net = snd rn\<rparr>)))"

definition BackendAdapter_deleteSession ::
  "'n ApiClient \<Rightarrow> Date \<Rightarrow> string \<Rightarrow> 'n BackendAdapter \<Rightarrow> SyncResult \<times> 'n BackendAdapter" where
  "BackendAdapter_deleteSession client now sid this =
     (let rn = client_delete client (''/sessions/'' @ sid) (net this)
      in case fst rn of
           None \<Rightarrow> (failure now sid ''Unknown error'', \<lparr>isOnline = False, net = snd rn\<rparr>)
         | Some response \<Rightarrow>
             if has_error response
             then (failure now sid (the (resp_error response)), \<lparr>isOnline = False, net = snd rn\<rparr>)
             else (\<lparr> success = True, result_sessionId = sid, timestamp = now,
                     error = None, result_metadata = None \<rparr>,
                   \<lparr>isOnline = True, net = snd rn\<rparr>))"




section \<open>Concrete configurations\<close>

definition initialDataState :: jsval where
  "initialDataState = JObj
     [(''data'', JNull), (''fileName'', JNull), (''validationReport'', JNull),
      (''isLoading'', JBool False), (''labels'', JArr []), (''labelGroups'', JArr []),
      (''selectedRowIds'', JArr []), (''actionHistory'', JArr []),
      (''currentHistoryIndex'', JNum (Finite (-1))), (''isLabelingMode'', JBool False),
      (''recommendations'', JArr []), (''isGeneratingRecommendations'', JBool False),
      (''dismissedRecommendationIds'', JArr []), (''rulePreview'', JNull),
      (''isRuleModalOpen'', JBool False), (''rules'', JArr []),
      (''isRuleManagerOpen'', JBool False)]"

definition scripted_adapter ::
  "string \<Rightarrow> int \<Rightarrow> bool \<Rightarrow> string \<Rightarrow> (string \<times> PersistedState) list \<Rightarrow> unit StateAdapter" where
  "scripted_adapter nm prio ok err held =
     \<lparr> name = nm, priority = prio,
       saveState = (\<lambda>sid ds tab ty w.
          (\<lparr> success = ok, result_sessionId = sid, timestamp = 0,
             error = (if ok then None else Some err), result_metadata = None \<rparr>, w)),
       loadState = (\<lambda>sid w. (map_of held sid, w)),
       deleteSession = (\<lambda>sid w.
          (\<lparr> success = ok, result_sessionId = sid, timestamp = 0,
             error = (if ok then None else Some err), result_metadata = None \<rparr>, w)),
       listSessions = (\<lambda>w. (map (\<lambda>kv. metadata (snd kv)) held, w)) \<rparr>"

definition config_of :: "unit StateAdapter list \<Rightarrow> string \<Rightarrow> unit StateSyncConfig" where
  "config_of as s = \<lparr> cfg_adapters = as, cfg_strategy = Some s, cfg_conflictResolution = None,
                      cfg_autoSync = None, cfg_syncInterval = None, cfg_retryAttempts = None,
                      cfg_retryDelay = None \<rparr>"

definition both_failing :: "unit StateAdapter list" where
  "both_failing = [scripted_adapter ''localStorage'' 1 False ''QuotaExceededError'' [],
                   scripted_adapter ''backend'' 10 False ''Request timeout'' []]"

definition backend_down :: "unit StateAdapter list" where
  "backend_down = [scripted_adapter ''localStorage'' 1 True [] [],
                   scripted_adapter ''backend'' 10 False ''Request timeout'' []]"


definition stored_state :: "string \<Rightarrow> Date \<Rightarrow> PersistedState" where
  "stored_state sid t =
     \<lparr> sessionId = sid, dataState = initialDataState, activeTab = ''labeling'',
       metadata = \<lparr> meta_sessionId = sid, fileName = JNull, lastModified = Some t,
                    rowCount = JNum (Finite 0), labelCount = JNum (Finite 0), ruleCount = JNum (Finite 0),
                    storageType = ''local'', syncStatus = Some ''synced'',
                    lastSyncedAt = Some (Some t), version = Some ''1.0.0'' \<rparr>,
       createdAt = t, updatedAt = t \<rparr>"

definition local_100 :: "unit StateAdapter" where
  "local_100 = scripted_adapter ''localStorage'' 1 True [] [(''s2'', stored_state ''s2'' 100)]"

definition backend_200 :: "unit StateAdapter" where
  "backend_200 = scripted_adapter ''backend'' 10 True [] [(''s2'', stored_state ''s2'' 200)]"

definition queued_offline :: "unit StateSync \<times> unit" where
  "queued_offline = perform 7 (Save ''s1'' initialDataState ''labeling'' ''data'')
                      (StateSync_constructor (config_of backend_down ''local-first''), ())"


text \<open>An empty browser store that accepts every write.\<close>

definition empty_store :: localStorage where
  "empty_store = \<lparr> items = (\<lambda>k. None), accepts = (\<lambda>m k v. True) \<rparr>"

text \<open>
  Modelled from the spec: the remote session service behind the \<open>ApiClient\<close> (section 6,
  external interfaces), which is not part of the sources. It keeps the posted records and the
  active-session value. Storing a record makes that session the active one (sections 3 and
  4.1: the pointer is set on every successful save); \<open>/sessions/active\<close> reads, sets and
  clears it. The list of sessions is answered by \<open>lastModified\<close> descending (section 4.1),
  and deleting a session that is not stored is a success (section 4.1). An unreachable
  service makes the client resolve to an error of status 0, as \<open>ApiClient.request\<close> does
  when \<open>fetch\<close> fails.
\<close>

record service =
  sessions :: "(string \<times> jsval) list"
  active :: jsval
  reachable :: bool











text \<open>Stores and service states reached by saving, and corrupted stores.\<close>

definition two_saved :: localStorage where
  "two_saved = snd (LocalStorageAdapter_saveState 2 ''s2'' initialDataState ''labeling'' ''data''
                 (snd (LocalStorageAdapter_saveState 1 ''s1'' initialDataState ''labeling'' ''data''
                        empty_store)))"








definition dangling_index :: localStorage where
  "dangling_index = \<lparr> items = [SESSION_LIST_KEY \<mapsto> Json (JArr [JStr ''s1''])],
                       accepts = (\<lambda>m k v. True) \<rparr>"

definition unparseable_record :: localStorage where
  "unparseable_record = \<lparr> items = [SESSION_LIST_KEY \<mapsto> Json (JArr [JStr ''s1'']),
                                    getSessionKey ''s1'' \<mapsto> Plain ''{oops''],
                           accepts = (\<lambda>m k v. True) \<rparr>"

definition unindexed_record :: localStorage where
  "unindexed_record = removeItem SESSION_LIST_KEY
      (snd (LocalStorageAdapter_saveState 1 ''s1'' initialDataState ''labeling'' ''data'' empty_store))"





section \<open>Auxiliary notions\<close>

text \<open>
  The callback of the \<open>latest-wins\<close> reduction, and the states a list of adapters holds
  for a session in a given world.
\<close>

definition later :: "string \<times> PersistedState \<Rightarrow> string \<times> PersistedState \<Rightarrow> string \<times> PersistedState" where
  "later p c = (if updatedAt (snd c) > updatedAt (snd p) then c else p)"

definition held :: "'w StateAdapter list \<Rightarrow> string \<Rightarrow> 'w \<Rightarrow> (string \<times> PersistedState) list" where
  "held as sid w = List.map_filter (\<lambda>a. map_option (Pair (name a)) (fst (loadState a sid w))) as"


text \<open>
  Values that \<open>JSON.stringify\<close> and \<open>JSON.parse\<close> give back unchanged: no \<open>undefined\<close>,
  no date and no number other than a finite one (the negative zero apart) anywhere inside.
\<close>

fun plain :: "jsval \<Rightarrow> bool" where
  "plain JUndefined = False"
| "plain (JDate d) = False"
| "plain (JNum (Finite n)) = True"
| "plain (JNum n) = False"
| "plain (JArr xs) = list_all plain xs"
| "plain (JObj kvs) = list_all (\<lambda>kv. plain (snd kv)) kvs"
| "plain v = True"













section \<open>Properties of the orchestrator\<close>

lemmas eval_defs = StateSync_saveState_def StateSync_constructor_def scripted_adapter_def
    getAdaptersByStrategy_def Map_values_def Array_sort_def saveToAdapter_def primaryResult_def
    str_or_def num_or_def startAutoSync_def stopAutoSync_def config_of_def both_failing_def backend_down_def
    queueBackendSync_def Map_get_def Map_delete_def payload_counts_def initialDataState_def
    get_prop_opt_def js_or_def StateSync_deleteSession_def

lemmas eval_defs2 = eval_defs local_100_def backend_200_def stored_state_def
  StateSync_loadState_def loadState_from_def resolveConflict_def Array_reduce_def first_state_def
  syncPendingChanges_def StateSync_listSessions_def

lemma queueBackendSync_config:
  "config (fst (queueBackendSync now this sid ds tab ty w)) = config this"
  by (simp add: queueBackendSync_def Let_def split: option.splits prod.splits)

lemma queueBackendSync_adapters:
  "adapters (fst (queueBackendSync now this sid ds tab ty w)) = adapters this"
  by (simp add: queueBackendSync_def Let_def split: option.splits prod.splits)

lemma saveState_loop_results:
  "\<exists>rs. fst (saveState_loop now this as sid ds tab ty acc w) = acc @ rs \<and> length rs \<le> length as \<and>
        (\<forall>i<length rs. \<exists>wi. rs ! i = fst (saveToAdapter_loop now (config this) (as ! i) sid ds tab ty 0 None wi))"
proof (induction as arbitrary: this acc w)
  case Nil
  then show ?case by simp
next
  case (Cons a as)
  let ?rw = "saveToAdapter now this a sid ds tab ty w"
  let ?r = "fst ?rw"
  have r: "?r = fst (saveToAdapter_loop now (config this) a sid ds tab ty 0 None w)"
    by (simp add: saveToAdapter_def)
  consider (brk) "strategy (config this) = ''backend-first'' \<and> name a = ''backend'' \<and> success ?r"
    | (queue) "\<not> (strategy (config this) = ''backend-first'' \<and> name a = ''backend'' \<and> success ?r)"
        "strategy (config this) = ''local-first'' \<and> name a = ''localStorage'' \<and> success ?r"
    | (plain) "\<not> (strategy (config this) = ''backend-first'' \<and> name a = ''backend'' \<and> success ?r)"
        "\<not> (strategy (config this) = ''local-first'' \<and> name a = ''localStorage'' \<and> success ?r)"
    by blast
  then show ?case
  proof cases
    case brk
    then have "fst (saveState_loop now this (a # as) sid ds tab ty acc w) = acc @ [?r]"
      by (simp add: Let_def)
    moreover have "\<forall>i<length [?r]. \<exists>wi. [?r] ! i = fst (saveToAdapter_loop now (config this) ((a # as) ! i) sid ds tab ty 0 None wi)"
      using r by auto
    ultimately show ?thesis by (intro exI[of _ "[?r]"]) simp
  next
    case queue
    let ?q = "queueBackendSync now this sid ds tab ty (snd ?rw)"
    have eq: "saveState_loop now this (a # as) sid ds tab ty acc w
               = saveState_loop now (fst ?q) as sid ds tab ty (acc @ [?r]) (snd ?q)"
      using queue by (auto simp add: Let_def)
    from Cons.IH[of "fst ?q" "acc @ [?r]" "snd ?q"]
    obtain rs where rs: "fst (saveState_loop now (fst ?q) as sid ds tab ty (acc @ [?r]) (snd ?q)) = (acc @ [?r]) @ rs"
      "length rs \<le> length as"
      "\<forall>i<length rs. \<exists>wi. rs ! i = fst (saveToAdapter_loop now (config this) (as ! i) sid ds tab ty 0 None wi)"
      by (auto simp: queueBackendSync_config)
    have "\<forall>i<length (?r # rs). \<exists>wi. (?r # rs) ! i = fst (saveToAdapter_loop now (config this) ((a # as) ! i) sid ds tab ty 0 None wi)"
    proof (intro allI impI)
      fix i assume "i < length (?r # rs)"
      then show "\<exists>wi. (?r # rs) ! i = fst (saveToAdapter_loop now (config this) ((a # as) ! i) sid ds tab ty 0 None wi)"
        using r rs(3) by (cases i) auto
    qed
    with rs(1,2) eq show ?thesis by (intro exI[of _ "?r # rs"]) simp
  next
    case plain
    have eq: "saveState_loop now this (a # as) sid ds tab ty acc w
               = saveState_loop now this as sid ds tab ty (acc @ [?r]) (snd ?rw)"
      using plain by (auto simp add: Let_def)
    from Cons.IH[of this "acc @ [?r]" "snd ?rw"]
    obtain rs where rs: "fst (saveState_loop now this as sid ds tab ty (acc @ [?r]) (snd ?rw)) = (acc @ [?r]) @ rs"
      "length rs \<le> length as"
      "\<forall>i<length rs. \<exists>wi. rs ! i = fst (saveToAdapter_loop now (config this) (as ! i) sid ds tab ty 0 None wi)"
      by auto
    have "\<forall>i<length (?r # rs). \<exists>wi. (?r # rs) ! i = fst (saveToAdapter_loop now (config this) ((a # as) ! i) sid ds tab ty 0 None wi)"
    proof (intro allI impI)
      fix i assume "i < length (?r # rs)"
      then show "\<exists>wi. (?r # rs) ! i = fst (saveToAdapter_loop now (config this) ((a # as) ! i) sid ds tab ty 0 None wi)"
        using r rs(3) by (cases i) auto
    qed
    with rs(1,2) eq show ?thesis by (intro exI[of _ "?r # rs"]) simp
  qed
qed

lemma primaryResult_first_success:
  "i < length results \<Longrightarrow> success (results ! i) \<Longrightarrow> (\<forall>j<i. \<not> success (results ! j))
     \<Longrightarrow> primaryResult results = Some (results ! i)"
proof -
  assume a: "i < length results" "success (results ! i)" "\<forall>j<i. \<not> success (results ! j)"
  then have "find success results = Some (results ! i)"
    by (auto simp: find_Some_iff)
  then show ?thesis by (simp add: primaryResult_def)
qed

lemma primaryResult_all_failed:
  "\<forall>r\<in>set results. \<not> success r \<Longrightarrow> primaryResult results = (case results of [] \<Rightarrow> None | r # rs \<Rightarrow> Some r)"
proof -
  assume "\<forall>r\<in>set results. \<not> success r"
  then have "find success results = None" by (simp add: find_None_iff)
  then show ?thesis by (simp add: primaryResult_def)
qed

text \<open>
  Claim C1, as amended. The value returned by the orchestrator's \<open>saveState\<close> is determined
  by the \<open>results\<close> array, which holds one \<open>saveToAdapter\<close> outcome per adapter tried, in
  strategy order: the first successful result when there is one; the result of the first
  adapter (index 0), not of the last, when every write failed; \<open>undefined\<close> when the
  strategy selected no adapter.
\<close>

theorem saveState_returns_primary_result:
  "\<exists>results.
     results = fst (saveState_loop now this (getAdaptersByStrategy this) sid ds tab ty [] w) \<and>
     length results \<le> length (getAdaptersByStrategy this) \<and>
     (\<forall>i<length results. \<exists>wi. results ! i =
          fst (saveToAdapter now this (getAdaptersByStrategy this ! i) sid ds tab ty wi)) \<and>
     (\<forall>i<length results. success (results ! i) \<and> (\<forall>j<i. \<not> success (results ! j)) \<longrightarrow>
          fst (StateSync_saveState now sid ds tab ty (this, w)) = Some (results ! i)) \<and>
     ((\<forall>r\<in>set results. \<not> success r) \<and> results \<noteq> [] \<longrightarrow>
          fst (StateSync_saveState now sid ds tab ty (this, w)) = Some (results ! 0)) \<and>
     (results = [] \<longrightarrow> fst (StateSync_saveState now sid ds tab ty (this, w)) = None)"
proof -
  let ?results = "fst (saveState_loop now this (getAdaptersByStrategy this) sid ds tab ty [] w)"
  from saveState_loop_results[of now this "getAdaptersByStrategy this" sid ds tab ty "[]" w]
  have len: "length ?results \<le> length (getAdaptersByStrategy this)"
    and each: "\<forall>i<length ?results. \<exists>wi. ?results ! i =
          fst (saveToAdapter now this (getAdaptersByStrategy this ! i) sid ds tab ty wi)"
    by (auto simp: saveToAdapter_def)
  have ret: "fst (StateSync_saveState now sid ds tab ty (this, w)) = primaryResult ?results"
    by (simp add: StateSync_saveState_def Let_def)
  have first: "\<forall>i<length ?results. success (?results ! i) \<and> (\<forall>j<i. \<not> success (?results ! j)) \<longrightarrow>
          fst (StateSync_saveState now sid ds tab ty (this, w)) = Some (?results ! i)"
    using ret primaryResult_first_success by metis
  have allfail: "(\<forall>r\<in>set ?results. \<not> success r) \<and> ?results \<noteq> [] \<longrightarrow>
          fst (StateSync_saveState now sid ds tab ty (this, w)) = Some (?results ! 0)"
    using ret primaryResult_all_failed[of ?results] by (cases ?results) auto
  have none: "?results = [] \<longrightarrow> fst (StateSync_saveState now sid ds tab ty (this, w)) = None"
    using ret by (simp add: primaryResult_def)
  show ?thesis using len each first allfail none by blast
qed

text \<open>
  Claim C1 as stated fails: with both adapters failing under \<open>local-first\<close>, the caller gets
  the on-device adapter's failure (tried first), not the remote adapter's (tried last).
\<close>

theorem saveState_all_failed_counterexample:
  "map error (fst (saveState_loop 7 (StateSync_constructor (config_of both_failing ''local-first''))
        (getAdaptersByStrategy (StateSync_constructor (config_of both_failing ''local-first'')))
        ''s1'' initialDataState ''labeling'' ''data'' [] ()))
     = [Some ''QuotaExceededError'', Some ''Request timeout'']
   \<and> map success (fst (saveState_loop 7 (StateSync_constructor (config_of both_failing ''local-first''))
        (getAdaptersByStrategy (StateSync_constructor (config_of both_failing ''local-first'')))
        ''s1'' initialDataState ''labeling'' ''data'' [] ()))
     = [False, False]
   \<and> map_option error (fst (StateSync_saveState 7 ''s1'' initialDataState ''labeling'' ''data''
        (StateSync_constructor (config_of both_failing ''local-first''), ())))
     = Some (Some ''QuotaExceededError'')"
  by (simp add: eval_defs)

text \<open>
  The amended C1 at a concrete configuration: \<open>backend-first\<close> with the remote adapter
  down returns the on-device adapter's success, the second entry of \<open>results\<close>.
\<close>

theorem saveState_returns_primary_result_witness:
  "map success (fst (saveState_loop 7 (StateSync_constructor (config_of backend_down ''backend-first''))
        (getAdaptersByStrategy (StateSync_constructor (config_of backend_down ''backend-first'')))
        ''s1'' initialDataState ''labeling'' ''data'' [] ()))
     = [False, True]
   \<and> map_option success (fst (StateSync_saveState 7 ''s1'' initialDataState ''labeling'' ''data''
        (StateSync_constructor (config_of backend_down ''backend-first''), ())))
     = Some True"
  using saveState_returns_primary_result[of 7 "StateSync_constructor (config_of backend_down ''backend-first'')"
      "''s1''" initialDataState "''labeling''" "''data''" "()"]
  by (simp add: eval_defs)

text \<open>
  Claim C7 as stated fails: constructing the orchestrator with the unrecognized strategy
  \<open>round-robin\<close> yields an orchestrator that keeps that strategy and saves successfully.
\<close>

theorem unknown_strategy_counterexample:
  "strategy (config (StateSync_constructor (config_of backend_down ''round-robin''))) = ''round-robin''
   \<and> map name (getAdaptersByStrategy (StateSync_constructor (config_of backend_down ''round-robin'')))
       = [''backend'', ''localStorage'']
   \<and> map_option success (fst (StateSync_saveState 7 ''s1'' initialDataState ''labeling'' ''data''
        (StateSync_constructor (config_of backend_down ''round-robin''), ())))
     = Some True"
  by (simp add: eval_defs)

text \<open>
  Claim C7, as amended. The constructor never rejects a strategy: an unrecognized, non-empty
  strategy string is stored as given and selects adapters exactly as \<open>hybrid\<close> does
  (descending priority); a missing or empty strategy becomes \<open>local-first\<close>.
\<close>

theorem unknown_strategy_handled_as_hybrid:
  "s \<noteq> [] \<Longrightarrow> s \<noteq> ''backend-first'' \<Longrightarrow> s \<noteq> ''local-first'' \<Longrightarrow> s \<noteq> ''backend-only''
     \<Longrightarrow> s \<noteq> ''local-only''
     \<Longrightarrow> strategy (config (StateSync_constructor (cfg\<lparr>cfg_strategy := Some s\<rparr>))) = s
       \<and> getAdaptersByStrategy (StateSync_constructor (cfg\<lparr>cfg_strategy := Some s\<rparr>))
         = getAdaptersByStrategy (StateSync_constructor (cfg\<lparr>cfg_strategy := Some ''hybrid''\<rparr>))
       \<and> strategy (config (StateSync_constructor (cfg\<lparr>cfg_strategy := None\<rparr>))) = ''local-first''
       \<and> strategy (config (StateSync_constructor (cfg\<lparr>cfg_strategy := Some []\<rparr>))) = ''local-first''"
  by (simp add: StateSync_constructor_def getAdaptersByStrategy_def Let_def str_or_def
        startAutoSync_def stopAutoSync_def)

text \<open>The amended C7 at the strategy \<open>round-robin\<close>.\<close>

theorem unknown_strategy_handled_as_hybrid_witness:
  "''round-robin'' \<noteq> ''hybrid''
   \<and> map name (getAdaptersByStrategy (StateSync_constructor (config_of backend_down ''round-robin'')))
     = map name (getAdaptersByStrategy (StateSync_constructor (config_of backend_down ''hybrid'')))"
proof -
  have h: "''round-robin'' \<noteq> []" "''round-robin'' \<noteq> ''backend-first''"
    "''round-robin'' \<noteq> ''local-first''" "''round-robin'' \<noteq> ''backend-only''"
    "''round-robin'' \<noteq> ''local-only''"
    by simp_all
  from unknown_strategy_handled_as_hybrid[OF h, of "config_of backend_down ''hybrid''"]
  show ?thesis by (simp add: config_of_def)
qed

lemma deleteSession_loop_results:
  "\<exists>rs. fst (deleteSession_loop as sid acc w) = acc @ rs \<and> length rs = length as \<and>
        (\<forall>i<length rs. \<exists>wi. rs ! i = fst (deleteSession (as ! i) sid wi))"
proof (induction as arbitrary: acc w)
  case Nil
  then show ?case by simp
next
  case (Cons a as)
  let ?rw = "deleteSession a sid w"
  from Cons.IH[of "acc @ [fst ?rw]" "snd ?rw"]
  obtain rs where rs: "fst (deleteSession_loop as sid (acc @ [fst ?rw]) (snd ?rw)) = (acc @ [fst ?rw]) @ rs"
    "length rs = length as" "\<forall>i<length rs. \<exists>wi. rs ! i = fst (deleteSession (as ! i) sid wi)"
    by auto
  have "\<forall>i<length (fst ?rw # rs). \<exists>wi. (fst ?rw # rs) ! i = fst (deleteSession ((a # as) ! i) sid wi)"
  proof (intro allI impI)
    fix i assume "i < length (fst ?rw # rs)"
    then show "\<exists>wi. (fst ?rw # rs) ! i = fst (deleteSession ((a # as) ! i) sid wi)"
      using rs(3) by (cases i) auto
  qed
  with rs(1,2) show ?case by (intro exI[of _ "fst ?rw # rs"]) (simp add: Let_def)
qed

text \<open>
  Claim C10. The orchestrator's \<open>deleteSession\<close> asks every registered adapter; its result
  has \<open>success = true\<close> exactly when at least one adapter's delete succeeded, and carries
  an error exactly when every adapter's delete failed. A failure on one of two adapters is
  therefore still reported as a success.
\<close>

theorem deleteSession_success_iff_some_adapter:
  "\<exists>results.
     results = fst (deleteSession_loop (Map_values (adapters this)) sid [] w) \<and>
     length results = length (adapters this) \<and>
     (\<forall>i<length results. \<exists>wi. results ! i =
          fst (deleteSession (Map_values (adapters this) ! i) sid wi)) \<and>
     success (fst (StateSync_deleteSession now sid (this, w))) = (\<exists>r\<in>set results. success r) \<and>
     (error (fst (StateSync_deleteSession now sid (this, w))) \<noteq> None
        \<longleftrightarrow> (\<forall>r\<in>set results. \<not> success r))"
proof -
  let ?results = "fst (deleteSession_loop (Map_values (adapters this)) sid [] w)"
  from deleteSession_loop_results[of "Map_values (adapters this)" sid "[]" w]
  have len: "length ?results = length (adapters this)"
    and each: "\<forall>i<length ?results. \<exists>wi. ?results ! i =
          fst (deleteSession (Map_values (adapters this) ! i) sid wi)"
    by (auto simp: Map_values_def)
  have s: "success (fst (StateSync_deleteSession now sid (this, w))) = (\<exists>r\<in>set ?results. success r)"
    by (simp add: StateSync_deleteSession_def Let_def list_ex_iff)
  have e: "error (fst (StateSync_deleteSession now sid (this, w))) \<noteq> None
        \<longleftrightarrow> (\<forall>r\<in>set ?results. \<not> success r)"
    by (simp add: StateSync_deleteSession_def Let_def list_ex_iff)
  show ?thesis using len each s e by blast
qed

text \<open>
  Claim C10 at two adapters: the delete fails on the remote adapter only, and the
  orchestrator reports success without an error; with both failing it reports the error.
\<close>

theorem deleteSession_success_iff_some_adapter_witness:
  "map success (fst (deleteSession_loop
        (Map_values (adapters (StateSync_constructor (config_of backend_down ''local-first''))))
        ''s1'' [] ())) = [True, False]
   \<and> success (fst (StateSync_deleteSession 7 ''s1''
        (StateSync_constructor (config_of backend_down ''local-first''), ()))) = True
   \<and> error (fst (StateSync_deleteSession 7 ''s1''
        (StateSync_constructor (config_of backend_down ''local-first''), ()))) = None
   \<and> error (fst (StateSync_deleteSession 7 ''s1''
        (StateSync_constructor (config_of both_failing ''local-first''), ())))
      = Some ''Failed to delete from all adapters''"
  using deleteSession_success_iff_some_adapter[of "StateSync_constructor (config_of backend_down ''local-first'')"
      "''s1''" "()" 7]
  by (simp add: eval_defs)

subsection \<open>Sorting\<close>


lemma mset_sort_insert: "mset (sort_insert cmp x xs) = add_mset x (mset xs)"
  by (induction xs) auto

lemma mset_Array_sort: "mset (Array_sort cmp xs) = mset xs"
  by (induction xs) (simp_all add: Array_sort_def mset_sort_insert)

lemma set_Array_sort: "set (Array_sort cmp xs) = set xs"
  using mset_Array_sort[of cmp xs] by (metis set_mset_mset)



subsection \<open>latest-wins\<close>

lemma foldl_later_mem: "foldl later x xs \<in> set (x # xs)"
  by (induction xs arbitrary: x) (auto simp: later_def)

lemma foldl_later_ge: "updatedAt (snd x) \<le> updatedAt (snd (foldl later x xs))"
proof (induction xs arbitrary: x)
  case Nil
  then show ?case by simp
next
  case (Cons y ys)
  have "updatedAt (snd x) \<le> updatedAt (snd (later x y))" by (simp add: later_def)
  also have "\<dots> \<le> updatedAt (snd (foldl later (later x y) ys))" by (rule Cons.IH)
  finally show ?case by simp
qed

lemma foldl_later_max: "y \<in> set (x # xs) \<Longrightarrow> updatedAt (snd y) \<le> updatedAt (snd (foldl later x xs))"
proof (induction xs arbitrary: x)
  case Nil
  then show ?case by simp
next
  case (Cons z zs)
  show ?case
  proof (cases "y = x")
    case True
    then show ?thesis using foldl_later_ge[of x "z # zs"] by simp
  next
    case False
    with Cons.prems have "y \<in> set (z # zs)" by simp
    then have "y = z \<or> y \<in> set zs" by auto
    then have "y \<in> set (later x z # zs) \<or> (y = z \<and> later x z = x)"
      by (auto simp: later_def)
    then show ?thesis
    proof
      assume "y \<in> set (later x z # zs)"
      from Cons.IH[OF this] show ?thesis by simp
    next
      assume a: "y = z \<and> later x z = x"
      then have "updatedAt (snd z) \<le> updatedAt (snd x)" by (auto simp: later_def split: if_splits)
      also have "\<dots> \<le> updatedAt (snd (foldl later x (z # zs)))" by (rule foldl_later_ge)
      finally show ?thesis using a by simp
    qed
  qed
qed

lemma latest_wins_picks_maximum:
  assumes cr: "conflictResolution (config this) = ''latest-wins''" and ne: "states \<noteq> []"
  shows "\<exists>s\<in>set states. resolveConflict this states = Some (snd s)
            \<and> (\<forall>s'\<in>set states. updatedAt (snd s') \<le> updatedAt (snd s))"
proof -
  from ne obtain x xs where states: "states = x # xs" by (cases states) auto
  have r: "resolveConflict this states = Some (snd (foldl later x xs))"
    using cr states
    by (simp add: resolveConflict_def Let_def Array_reduce_def later_def[abs_def])
  have m: "foldl later x xs \<in> set states" using foldl_later_mem[of x xs] states by simp
  have mx: "\<forall>s'\<in>set states. updatedAt (snd s') \<le> updatedAt (snd (foldl later x xs))"
    using foldl_later_max[of _ x xs] states by simp
  show ?thesis using r m mx by blast
qed

lemma set_held:
  "set (held as sid w) = {(name a, st) | a st. a \<in> set as \<and> fst (loadState a sid w) = Some st}"
  by (induction as) (auto simp: held_def List.map_filter_simps split: option.splits)

lemma loadState_loop_held:
  assumes H: "\<forall>b\<in>A. \<forall>w'. (\<forall>d\<in>A. fst (loadState d sid w') = fst (loadState d sid w))
                \<longrightarrow> (\<forall>d\<in>A. fst (loadState d sid (snd (loadState b sid w'))) = fst (loadState d sid w))"
  shows "set bs \<subseteq> A \<Longrightarrow> \<forall>d\<in>A. fst (loadState d sid w') = fst (loadState d sid w)
           \<Longrightarrow> fst (loadState_loop bs sid acc w') = acc @ held bs sid w"
proof (induction bs arbitrary: acc w')
  case Nil
  then show ?case by (simp add: held_def List.map_filter_simps)
next
  case (Cons b bs)
  from Cons.prems have b: "b \<in> A" and bs: "set bs \<subseteq> A" by auto
  from Cons.prems(2) b have same: "fst (loadState b sid w') = fst (loadState b sid w)" by simp
  from H b Cons.prems(2)
  have next_ok: "\<forall>d\<in>A. fst (loadState d sid (snd (loadState b sid w'))) = fst (loadState d sid w)"
    by blast
  show ?case
  proof (cases "fst (loadState b sid w)")
    case None
    with same Cons.IH[OF bs next_ok, of acc] show ?thesis
      by (simp add: held_def List.map_filter_simps Let_def)
  next
    case (Some st)
    with same Cons.IH[OF bs next_ok, of "acc @ [(name b, st)]"] show ?thesis
      by (simp add: held_def List.map_filter_simps Let_def)
  qed
qed

lemma loadState_from_latest:
  assumes cr: "conflictResolution (config this) = ''latest-wins''"
    and H: "\<forall>b\<in>set bs. \<forall>w'. (\<forall>d\<in>set bs. fst (loadState d sid w') = fst (loadState d sid w))
                \<longrightarrow> (\<forall>d\<in>set bs. fst (loadState d sid (snd (loadState b sid w'))) = fst (loadState d sid w))"
    and a: "a \<in> set bs" "fst (loadState a sid w) = Some st"
    and latest: "\<forall>b\<in>set bs. \<forall>st'. fst (loadState b sid w) = Some st' \<longrightarrow> st' = st \<or> updatedAt st' < updatedAt st"
  shows "fst (loadState_from this bs sid w) = Some st"
proof -
  let ?states = "held bs sid w"
  have loop: "fst (loadState_loop bs sid [] w) = ?states"
    using loadState_loop_held[OF H, of bs w "[]"] by simp
  have mem: "(name a, st) \<in> set ?states" using a by (auto simp: set_held)
  then have ne: "?states \<noteq> []" by auto
  have only: "\<And>s. s \<in> set ?states \<Longrightarrow> updatedAt st \<le> updatedAt (snd s) \<Longrightarrow> snd s = st"
    using latest by (fastforce simp: set_held)
  show ?thesis
  proof (cases "length ?states = 1")
    case True
    then obtain s where s: "?states = [s]" by (cases ?states) auto
    with mem have "snd s = st" by auto
    then show ?thesis using loop s by (simp add: loadState_from_def Let_def first_state_def)
  next
    case False
    from latest_wins_picks_maximum[OF cr ne]
    obtain s where s: "s \<in> set ?states" "resolveConflict this ?states = Some (snd s)"
      "\<forall>s'\<in>set ?states. updatedAt (snd s') \<le> updatedAt (snd s)" by blast
    from s(3) mem have "updatedAt st \<le> updatedAt (snd s)" by fastforce
    with only[OF s(1)] have "snd s = st" by simp
    then show ?thesis using loop s(2) False ne by (simp add: loadState_from_def Let_def)
  qed
qed

text \<open>
  Claim C4. Under \<open>latest-wins\<close>, when loading from one adapter does not change what the
  queried adapters hold for the session, and one of them holds a record whose \<open>updatedAt\<close>
  is strictly greater than that of every other record held, \<open>loadState\<close> returns that
  record, and so does the load over any reordering of the adapter query list.
\<close>

theorem latest_wins_returns_latest_in_any_order:
  assumes "conflictResolution (config this) = ''latest-wins''"
    and "\<forall>b\<in>set (getAdaptersByStrategy this). \<forall>w'.
           (\<forall>d\<in>set (getAdaptersByStrategy this). fst (loadState d sid w') = fst (loadState d sid w))
           \<longrightarrow> (\<forall>d\<in>set (getAdaptersByStrategy this).
                  fst (loadState d sid (snd (loadState b sid w'))) = fst (loadState d sid w))"
    and "a \<in> set (getAdaptersByStrategy this)"
    and "fst (loadState a sid w) = Some st"
    and "\<forall>b\<in>set (getAdaptersByStrategy this). \<forall>st'. fst (loadState b sid w) = Some st'
            \<longrightarrow> st' = st \<or> updatedAt st' < updatedAt st"
    and "mset bs = mset (getAdaptersByStrategy this)"
  shows "fst (StateSync_loadState sid (this, w)) = Some st
       \<and> fst (loadState_from this bs sid w) = Some st"
proof -
  have 1: "fst (loadState_from this (getAdaptersByStrategy this) sid w) = Some st"
    using assms(1-5) by (rule loadState_from_latest)
  have eq: "set bs = set (getAdaptersByStrategy this)"
    using assms(6) by (metis set_mset_mset)
  have 2: "fst (loadState_from this bs sid w) = Some st"
    using assms(1-5) unfolding eq[symmetric] by (rule loadState_from_latest)
  show ?thesis using 1 2 by (simp add: StateSync_loadState_def Let_def)
qed

subsection \<open>Pending entries\<close>

lemma map_fst_Map_set:
  "map fst (Map_set m k v) = (if k \<in> set (map fst m) then map fst m else map fst m @ [k])"
proof (induction m)
  case Nil
  then show ?case by simp
next
  case (Cons p m)
  obtain k' v' where p: "p = (k', v')" by (cases p)
  show ?case using Cons.IH p by (cases "k' = k") auto
qed

lemma keys_Map_set: "fst ` set (Map_set m k v) = insert k (fst ` set m)"
proof -
  have "set (map fst (Map_set m k v)) = insert k (set (map fst m))"
    unfolding map_fst_Map_set by auto
  then show ?thesis by simp
qed

lemma keys_Map_delete: "fst ` set (Map_delete m k) = fst ` set m - {k}"
  by (auto simp: Map_delete_def)

lemma queueBackendSync_keeps:
  assumes "\<forall>b ds tab ty w'. Map_get (adapters this) ''backend'' = Some b
              \<longrightarrow> \<not> success (fst (saveState b sid ds tab ty w'))"
    and "sid \<in> fst ` set (pendingSyncs this)"
  shows "sid \<in> fst ` set (pendingSyncs (fst (queueBackendSync now this sid' ds' tab' ty' w)))"
  using assms
  by (auto simp: queueBackendSync_def Let_def keys_Map_set keys_Map_delete
           split: option.splits prod.splits)

lemma saveState_loop_keeps:
  assumes "\<forall>b ds tab ty w'. Map_get (adapters this) ''backend'' = Some b
              \<longrightarrow> \<not> success (fst (saveState b sid ds tab ty w'))"
    and "sid \<in> fst ` set (pendingSyncs this)"
  shows "sid \<in> fst ` set (pendingSyncs (fst (snd (saveState_loop now this as sid' ds' tab' ty' acc w))))
       \<and> adapters (fst (snd (saveState_loop now this as sid' ds' tab' ty' acc w))) = adapters this"
  using assms
proof (induction as arbitrary: this acc w)
  case Nil
  then show ?case by simp
next
  case (Cons a as)
  let ?rw = "saveToAdapter now this a sid' ds' tab' ty' w"
  let ?q = "queueBackendSync now this sid' ds' tab' ty' (snd ?rw)"
  have q1: "sid \<in> fst ` set (pendingSyncs (fst ?q))"
    using Cons.prems by (rule queueBackendSync_keeps)
  have q2: "adapters (fst ?q) = adapters this"
    by (simp add: queueBackendSync_def Let_def split: option.splits prod.splits)
  have ihq: "sid \<in> fst ` set (pendingSyncs (fst (snd (saveState_loop now (fst ?q) as sid' ds' tab' ty' (acc @ [fst ?rw]) (snd ?q)))))
       \<and> adapters (fst (snd (saveState_loop now (fst ?q) as sid' ds' tab' ty' (acc @ [fst ?rw]) (snd ?q)))) = adapters this"
    using Cons.IH[of "fst ?q" "acc @ [fst ?rw]" "snd ?q"] Cons.prems(1) q1 q2 by simp
  have ihp: "sid \<in> fst ` set (pendingSyncs (fst (snd (saveState_loop now this as sid' ds' tab' ty' (acc @ [fst ?rw]) (snd ?rw)))))
       \<and> adapters (fst (snd (saveState_loop now this as sid' ds' tab' ty' (acc @ [fst ?rw]) (snd ?rw)))) = adapters this"
    using Cons.IH[of this "acc @ [fst ?rw]" "snd ?rw"] Cons.prems by simp
  show ?case using ihq ihp Cons.prems(2) by (simp add: Let_def)
qed

lemma syncPending_loop_keeps:
  assumes "\<forall>ds tab ty w'. \<not> success (fst (saveState backend sid ds tab ty w'))"
    and "sid \<in> fst ` set (pendingSyncs this)"
  shows "sid \<in> fst ` set (pendingSyncs (fst (syncPending_loop backend entries this w)))
       \<and> adapters (fst (syncPending_loop backend entries this w)) = adapters this"
  using assms
proof (induction entries arbitrary: this w)
  case Nil
  then show ?case by simp
next
  case (Cons e es)
  let ?rw = "saveState backend (fst e) (dataState (snd e)) (activeTab (snd e)) ''data'' w"
  show ?case
  proof (cases "success (fst ?rw)")
    case True
    with Cons.prems(1) have ne: "fst e \<noteq> sid" by auto
    let ?this1 = "this\<lparr>pendingSyncs := Map_delete (pendingSyncs this) (fst e)\<rparr>"
    have "sid \<in> fst ` set (pendingSyncs ?this1)"
      using Cons.prems(2) ne by (simp add: keys_Map_delete)
    from Cons.IH[OF Cons.prems(1) this, of "snd ?rw"] True show ?thesis by (simp add: Let_def)
  next
    case False
    with Cons.IH[OF Cons.prems, of "snd ?rw"] show ?thesis by (simp add: Let_def)
  qed
qed

lemma perform_keeps:
  assumes "\<forall>b ds tab ty w'. Map_get (adapters (fst s)) ''backend'' = Some b
              \<longrightarrow> \<not> success (fst (saveState b sid ds tab ty w'))"
    and "sid \<in> fst ` set (pendingSyncs (fst s))"
  shows "sid \<in> fst ` set (pendingSyncs (fst (perform now c s)))
       \<and> adapters (fst (perform now c s)) = adapters (fst s)"
proof (cases c)
  case (Save sid' ds' tab' ty')
  then show ?thesis
    using saveState_loop_keeps[OF assms, of now "getAdaptersByStrategy (fst s)" sid' ds' tab' ty' "[]" "snd s"]
    by (simp add: StateSync_saveState_def Let_def)
next
  case (Load x)
  then show ?thesis using assms(2) by (simp add: StateSync_loadState_def Let_def)
next
  case (Delete x)
  then show ?thesis using assms(2) by (simp add: StateSync_deleteSession_def Let_def)
next
  case ListAll
  then show ?thesis using assms(2) by (simp add: StateSync_listSessions_def Let_def)
next
  case Tick
  show ?thesis
  proof (cases "Map_get (adapters (fst s)) ''backend''")
    case None
    then show ?thesis using Tick assms(2) by (simp add: syncPendingChanges_def)
  next
    case (Some b)
    with assms(1) have "\<forall>ds tab ty w'. \<not> success (fst (saveState b sid ds tab ty w'))" by simp
    from syncPending_loop_keeps[OF this assms(2), of "pendingSyncs (fst s)" "snd s"]
    show ?thesis using Tick Some by (simp add: syncPendingChanges_def)
  qed
qed

text \<open>
  Claim C2. While every push of a session to the backend adapter fails, its entry stays in
  the pending queue through any run of orchestrator calls: timer ticks, saves, loads,
  listings and deletes (the orchestrator's \<open>deleteSession\<close> does not touch the queue).
  An entry can therefore leave the queue only through a successful backend push.
\<close>

theorem pending_entry_survives_failed_pushes:
  assumes "\<forall>b ds tab ty w'. Map_get (adapters this) ''backend'' = Some b
              \<longrightarrow> \<not> success (fst (saveState b sid ds tab ty w'))"
    and "sid \<in> fst ` set (pendingSyncs this)"
  shows "sid \<in> fst ` set (pendingSyncs (fst (run calls (this, w))))"
proof -
  have "\<forall>b ds tab ty w'. Map_get (adapters (fst s)) ''backend'' = Some b
              \<longrightarrow> \<not> success (fst (saveState b sid ds tab ty w'))
        \<Longrightarrow> sid \<in> fst ` set (pendingSyncs (fst s))
        \<Longrightarrow> sid \<in> fst ` set (pendingSyncs (fst (run calls s)))" for s :: "'a StateSync \<times> 'a"
  proof (induction calls arbitrary: s)
    case Nil
    then show ?case by simp
  next
    case (Cons c cs)
    from perform_keeps[OF Cons.prems, of "fst c" "snd c"]
    have 1: "sid \<in> fst ` set (pendingSyncs (fst (perform (fst c) (snd c) s)))"
      and 2: "adapters (fst (perform (fst c) (snd c) s)) = adapters (fst s)" by auto
    have "sid \<in> fst ` set (pendingSyncs (fst (run cs (perform (fst c) (snd c) s))))"
      using Cons.IH[of "perform (fst c) (snd c) s"] Cons.prems(1) 1 2 by simp
    then show ?case by simp
  qed
  from this[of "(this, w)"] assms show ?thesis by simp
qed


text \<open>
  Claim C4 at the scenario of two adapters holding \<open>s2\<close> with \<open>updatedAt\<close> 100 and 200:
  the record of time 200 is returned in both query orders.
\<close>

theorem latest_wins_returns_latest_in_any_order_witness:
  "getAdaptersByStrategy (StateSync_constructor (config_of [local_100, backend_200] ''local-first''))
     = [local_100, backend_200]
   \<and> fst (StateSync_loadState ''s2''
          (StateSync_constructor (config_of [local_100, backend_200] ''local-first''), ()))
     = Some (stored_state ''s2'' 200)
   \<and> fst (loadState_from (StateSync_constructor (config_of [local_100, backend_200] ''local-first''))
          [backend_200, local_100] ''s2'' ())
     = Some (stored_state ''s2'' 200)"
proof -
  let ?orch = "StateSync_constructor (config_of [local_100, backend_200] ''local-first'')"
  have as: "getAdaptersByStrategy ?orch = [local_100, backend_200]"
    by (simp add: eval_defs2)
  have h1: "conflictResolution (config ?orch) = ''latest-wins''"
    by (simp add: eval_defs2)
  have h2: "\<forall>b\<in>set (getAdaptersByStrategy ?orch). \<forall>w'.
           (\<forall>d\<in>set (getAdaptersByStrategy ?orch). fst (loadState d ''s2'' w') = fst (loadState d ''s2'' ()))
           \<longrightarrow> (\<forall>d\<in>set (getAdaptersByStrategy ?orch).
                  fst (loadState d ''s2'' (snd (loadState b ''s2'' w'))) = fst (loadState d ''s2'' ()))"
    by simp
  have h3: "backend_200 \<in> set (getAdaptersByStrategy ?orch)"
    unfolding as by simp
  have h4: "fst (loadState backend_200 ''s2'' ()) = Some (stored_state ''s2'' 200)"
    by (simp add: backend_200_def scripted_adapter_def)
  have h5: "\<forall>b\<in>set (getAdaptersByStrategy ?orch). \<forall>st'. fst (loadState b ''s2'' ()) = Some st'
            \<longrightarrow> st' = stored_state ''s2'' 200 \<or> updatedAt st' < updatedAt (stored_state ''s2'' 200)"
    unfolding as by (auto simp: local_100_def backend_200_def scripted_adapter_def stored_state_def)
  have h6: "mset [backend_200, local_100] = mset (getAdaptersByStrategy ?orch)"
    unfolding as by simp
  from latest_wins_returns_latest_in_any_order[OF h1 h2 h3 h4 h5 h6] as
  show ?thesis by simp
qed


text \<open>
  Claim C2 at a session saved under \<open>local-first\<close> with the backend down: the entry is
  still queued after a tick, an explicit delete and another tick.
\<close>

theorem pending_entry_survives_failed_pushes_witness:
  "map fst (pendingSyncs (fst queued_offline)) = [''s1'']
   \<and> ''s1'' \<in> fst ` set (pendingSyncs (fst (run [(8, Tick), (9, Delete ''s1''), (10, Tick)]
                                               (fst queued_offline, ()))))"
proof -
  have q: "fst queued_offline = (StateSync_constructor (config_of backend_down ''local-first''))
             \<lparr>pendingSyncs := pendingSyncs (fst queued_offline)\<rparr>"
    by (simp add: queued_offline_def eval_defs2)
  have p: "map fst (pendingSyncs (fst queued_offline)) = [''s1'']"
    by (simp add: queued_offline_def eval_defs2)
  have h1: "\<forall>b ds tab ty w'. Map_get (adapters (fst queued_offline)) ''backend'' = Some b
              \<longrightarrow> \<not> success (fst (saveState b ''s1'' ds tab ty w'))"
    by (subst q) (auto simp: eval_defs2)
  have h2: "''s1'' \<in> fst ` set (pendingSyncs (fst queued_offline))"
    using p by (metis list.set_intros(1) list.set_map)
  have c: "''s1'' \<in> fst ` set (pendingSyncs (fst (run [(8, Tick), (9, Delete ''s1''), (10, Tick)]
                                               (fst queued_offline, ()))))"
    by (rule pending_entry_survives_failed_pushes[OF h1 h2])
  from p c show ?thesis by (rule conjI)
qed

subsection \<open>The merged list\<close>




section \<open>Properties of the adapters\<close>

lemma key_neq [simp]:
  "getSessionKey sid \<noteq> SESSION_LIST_KEY" "getSessionKey sid \<noteq> ACTIVE_SESSION_KEY"
  "SESSION_LIST_KEY \<noteq> getSessionKey sid" "ACTIVE_SESSION_KEY \<noteq> getSessionKey sid"
  "SESSION_LIST_KEY \<noteq> ACTIVE_SESSION_KEY" "ACTIVE_SESSION_KEY \<noteq> SESSION_LIST_KEY"
  by (simp_all add: getSessionKey_def SESSION_LIST_KEY_def ACTIVE_SESSION_KEY_def STORAGE_PREFIX_def)






lemma backend_save_is_one_post:
  assumes "success (fst (BackendAdapter_saveState client now sid ds tab ty this))"
  shows "\<exists>payload. get_prop payload ''sessionId'' = Some (JStr sid)
            \<and> get_prop payload ''dataState'' = Some ds
            \<and> net (snd (BackendAdapter_saveState client now sid ds tab ty this))
                = snd (client_post client (''/sessions/'' @ sid) payload (net this))"
proof (cases "payload_counts ds")
  case None
  with assms show ?thesis by (simp add: BackendAdapter_saveState_def failure_def)
next
  case (Some counts)
  let ?payload = "JObj [(''sessionId'', JStr sid), (''dataState'', ds),
                        (''activeTab'', JStr tab), (''metadata'', fresh_metadata now sid counts ''backend''),
                        (''type'', JStr ty)]"
  have "net (snd (BackendAdapter_saveState client now sid ds tab ty this))
          = snd (client_post client (''/sessions/'' @ sid) ?payload (net this))"
    using Some by (simp add: BackendAdapter_saveState_def Let_def split: option.splits)
  moreover have "get_prop ?payload ''sessionId'' = Some (JStr sid)" "get_prop ?payload ''dataState'' = Some ds"
    by simp_all
  ultimately show ?thesis by blast
qed




subsection \<open>jsonify\<close>

lemma jsonify_not_undefined [simp]: "jsonify v \<noteq> JUndefined"
  by (cases v rule: jsonify.cases) auto


subsection \<open>Listing on the device and on the remote service\<close>











subsection \<open>deleteSession on the device\<close>


lemma getSessionList_removeItem [simp]:
  "getSessionList (removeItem (getSessionKey sid) ls) = getSessionList ls"
  by (simp add: getSessionList_def removeItem_def getItem_def)








subsection \<open>Corrupted stores\<close>

lemma set_collect_sessions:
  "m \<in> set (collect_sessions ids ls acc) \<Longrightarrow>
     m \<in> set acc \<or> (\<exists>x\<in>set ids. \<exists>st. LocalStorageAdapter_loadState (to_string x) ls = Some st
                                    \<and> m = get_prop_opt st ''metadata'')"
proof (induction ids arbitrary: acc)
  case Nil
  then show ?case by simp
next
  case (Cons x xs)
  show ?case
  proof (cases "LocalStorageAdapter_loadState (to_string x) ls")
    case None
    with Cons.prems have "m \<in> set (collect_sessions xs ls acc)" by simp
    from Cons.IH[OF this] show ?thesis by auto
  next
    case (Some st)
    with Cons.prems have "m \<in> set (collect_sessions xs ls (acc @ [get_prop_opt st ''metadata'']))" by simp
    from Cons.IH[OF this] Some show ?thesis by auto
  qed
qed

lemma listed_only_if_indexed_and_loadable:
  assumes "m \<in> set (LocalStorageAdapter_listSessions ls)"
  shows "\<exists>idx ids x st. getSessionList ls = Inr idx \<and> iterate idx = Inr ids \<and> x \<in> set ids
            \<and> LocalStorageAdapter_loadState (to_string x) ls = Some st
            \<and> m = get_prop_opt st ''metadata''"
proof (cases "getSessionList ls")
  case (Inl e)
  with assms show ?thesis by (simp add: LocalStorageAdapter_listSessions_def)
next
  case (Inr idx)
  show ?thesis
  proof (cases "iterate idx")
    case (Inl e)
    with assms Inr show ?thesis by (simp add: LocalStorageAdapter_listSessions_def)
  next
    case (Inr ids)
    with assms \<open>getSessionList ls = Inr idx\<close>
    have "m \<in> set (collect_sessions ids ls [])"
      by (simp add: LocalStorageAdapter_listSessions_def set_Array_sort)
    from set_collect_sessions[OF this] \<open>getSessionList ls = Inr idx\<close> Inr show ?thesis by auto
  qed
qed

text \<open>
  Claim C6, as amended. A session whose record is missing or is not JSON text loads as
  \<open>null\<close>, and \<open>listSessions\<close> lists only metadata of index entries whose record loads: a
  session with a missing or unparseable record, and a record absent from the index, are not
  listed. Nothing is thrown; the index itself is left as it is.
\<close>

theorem unloadable_session_is_absent:
  "(getItem (getSessionKey sid) ls = None \<longrightarrow> LocalStorageAdapter_loadState sid ls = None)
   \<and> (getItem (getSessionKey sid) ls = Some (Plain s) \<longrightarrow> LocalStorageAdapter_loadState sid ls = None)
   \<and> (m \<in> set (LocalStorageAdapter_listSessions ls) \<longrightarrow>
        (\<exists>idx ids x st. getSessionList ls = Inr idx \<and> iterate idx = Inr ids \<and> x \<in> set ids
            \<and> LocalStorageAdapter_loadState (to_string x) ls = Some st
            \<and> m = get_prop_opt st ''metadata''))"
  using listed_only_if_indexed_and_loadable[of m ls]
  by (auto simp: LocalStorageAdapter_loadState_def)




text \<open>
  Claim C6 as stated fails: \<open>hasSession\<close> answers true for an unparseable record; a record
  absent from the index is still loaded; and the index keeps the entry of a session whose
  record is missing, also after operations that rewrite the index.
\<close>

theorem corruption_not_healed_counterexample:
  "LocalStorageAdapter_hasSession ''s1'' unparseable_record
   \<and> LocalStorageAdapter_loadState ''s1'' unparseable_record = None
   \<and> LocalStorageAdapter_listSessions unindexed_record = []
   \<and> LocalStorageAdapter_loadState ''s1'' unindexed_record \<noteq> None
   \<and> LocalStorageAdapter_loadState ''s1'' dangling_index = None
   \<and> getSessionList (snd (LocalStorageAdapter_deleteSession 9 ''s2'' dangling_index))
       = Inr (JArr [JStr ''s1''])
   \<and> getSessionList (snd (LocalStorageAdapter_saveState 9 ''s2'' initialDataState ''labeling'' ''data''
                            dangling_index)) = Inr (JArr [JStr ''s1'', JStr ''s2''])"
  by code_simp

text \<open>
  The amended C6 at an index entry without record, at an unparseable record, and at the first
  entry listed for a store holding two sessions.
\<close>

theorem unloadable_session_is_absent_witness:
  "getItem (getSessionKey ''s1'') dangling_index = None
   \<and> LocalStorageAdapter_loadState ''s1'' dangling_index = None
   \<and> getItem (getSessionKey ''s1'') unparseable_record = Some (Plain ''{oops'')
   \<and> LocalStorageAdapter_loadState ''s1'' unparseable_record = None
   \<and> LocalStorageAdapter_listSessions two_saved ! 0 \<in> set (LocalStorageAdapter_listSessions two_saved)
   \<and> (\<exists>idx ids x st. getSessionList two_saved = Inr idx \<and> iterate idx = Inr ids \<and> x \<in> set ids
            \<and> LocalStorageAdapter_loadState (to_string x) two_saved = Some st
            \<and> LocalStorageAdapter_listSessions two_saved ! 0 = get_prop_opt st ''metadata'')"
proof -
  let ?m = "LocalStorageAdapter_listSessions two_saved ! 0"
  have a: "getItem (getSessionKey ''s1'') dangling_index = None" by code_simp
  have b: "getItem (getSessionKey ''s1'') unparseable_record = Some (Plain ''{oops'')" by code_simp
  have c: "?m \<in> set (LocalStorageAdapter_listSessions two_saved)" by code_simp
  from unloadable_session_is_absent[of "''s1''" dangling_index "''{oops''" ?m] a
  have 1: "LocalStorageAdapter_loadState ''s1'' dangling_index = None" by blast
  from unloadable_session_is_absent[of "''s1''" unparseable_record "''{oops''" ?m] b
  have 2: "LocalStorageAdapter_loadState ''s1'' unparseable_record = None" by blast
  from unloadable_session_is_absent[of "''s1''" two_saved "''{oops''" ?m] c
  have 3: "\<exists>idx ids x st. getSessionList two_saved = Inr idx \<and> iterate idx = Inr ids \<and> x \<in> set ids
            \<and> LocalStorageAdapter_loadState (to_string x) two_saved = Some st
            \<and> ?m = get_prop_opt st ''metadata''" by blast
  from a 1 b 2 c 3 show ?thesis by blast
qed

section \<open>The round trip through the on-device adapter\<close>

subsection \<open>Date texts\<close>






subsection \<open>Values that survive the round trip\<close>




























end
